theory Spec2Isabelle
  imports Main "HOL-Library.AList" "HOL-Library.Multiset" "HOL-Library.Product_Lexorder"
begin

section \<open>JavaScript values the server computes with\<close>

text \<open>
  The cells of a puzzle are JavaScript numbers. The server only ever stores the result of
  \<^verbatim>\<open>Math.floor(Math.random() * 4)\<close>, the constant 1, or \<^verbatim>\<open>(x + 1) % 4\<close>, so a
  cell is a natural number or \<^verbatim>\<open>NaN\<close> (what \<^verbatim>\<open>(undefined + 1) % 4\<close> gives).
\<close>

datatype jsnum = Num nat | NaN

text \<open>
  A JavaScript array as \<^verbatim>\<open>server.js\<close> can observe it: its slots (\<open>None\<close> is a hole,
  which reads as \<^verbatim>\<open>undefined\<close> and which \<^verbatim>\<open>every\<close> skips), and whether an own
  property named \<^verbatim>\<open>every\<close> shadows \<^verbatim>\<open>Array.prototype.every\<close>.
\<close>

record jsarray =
  elems :: "jsnum option list"
  every_own :: bool

definition new_array :: "jsnum list \<Rightarrow> jsarray" where
  "new_array vs = \<lparr>elems = map Some vs, every_own = False\<rparr>"

text \<open>\<^verbatim>\<open>a[i]\<close> for an array index \<open>i\<close>; \<open>None\<close> is \<^verbatim>\<open>undefined\<close>.\<close>

definition arr_get :: "jsarray \<Rightarrow> nat \<Rightarrow> jsnum option" where
  "arr_get a i = (if i < length (elems a) then elems a ! i else None)"

text \<open>\<^verbatim>\<open>a[i] = v\<close> for an array index \<open>i\<close>: writing past the end extends the array with holes.\<close>

definition arr_set :: "jsarray \<Rightarrow> nat \<Rightarrow> jsnum \<Rightarrow> jsarray" where
  "arr_set a i v =
     a\<lparr>elems := (if i < length (elems a) then (elems a)[i := Some v]
                 else elems a @ replicate (i - length (elems a)) None @ [Some v])\<rparr>"

text \<open>\<^verbatim>\<open>a.length = n\<close>: truncates, or extends with holes.\<close>

definition set_length :: "jsarray \<Rightarrow> nat \<Rightarrow> jsarray" where
  "set_length a n = a\<lparr>elems := take n (elems a) @ replicate (n - length (elems a)) None\<rparr>"

text \<open>
  \<^verbatim>\<open>a.every((val, i) => f(val, i))\<close>: the callback runs on the slots that exist. Calling it
  when an own property \<^verbatim>\<open>every\<close> holds a number is a TypeError, which the callers model.
\<close>

definition every :: "(jsnum \<Rightarrow> nat \<Rightarrow> bool) \<Rightarrow> jsarray \<Rightarrow> bool" where
  "every f a =
     list_all (\<lambda>i. case elems a ! i of None \<Rightarrow> True | Some v \<Rightarrow> f v i) [0..<length (elems a)]"

text \<open>\<^verbatim>\<open>val === w\<close> for a number \<open>val\<close>: \<^verbatim>\<open>NaN\<close> and \<^verbatim>\<open>undefined\<close> equal nothing.\<close>

fun strict_eq :: "jsnum \<Rightarrow> jsnum option \<Rightarrow> bool" where
  "strict_eq (Num m) (Some (Num n)) = (m = n)"
| "strict_eq _ _ = False"

text \<open>\<^verbatim>\<open>(x + 1) % 4\<close>, where \<open>x\<close> is a number or \<^verbatim>\<open>undefined\<close>.\<close>

fun next_rotation :: "jsnum option \<Rightarrow> jsnum" where
  "next_rotation (Some (Num n)) = Num ((n + 1) mod 4)"
| "next_rotation _ = NaN"

text \<open>
  The property key that \<^verbatim>\<open>data.tileIndex\<close> converts to in \<^verbatim>\<open>puzzle[tileIndex]\<close>.
  \<open>Index n\<close> is the canonical decimal string of \<open>n\<close> (from the JSON number \<open>n\<close> or the
  string \<^verbatim>\<open>"n"\<close>); it is an array index below \<open>2^32 - 1\<close> and an ordinary property
  above. \<open>Other\<close> is every remaining key (a negative or fractional number, \<^verbatim>\<open>"undefined"\<close>
  for a missing field, any other text): the assignment then creates or overwrites a
  property that nothing else in the server reads.
\<close>

datatype propkey = Index nat | Length | Every | Other

text \<open>\<^verbatim>\<open>puzzle[tileIndex] = (puzzle[tileIndex] + 1) % 4\<close> (line 196).\<close>

fun rotate_tile :: "jsarray \<Rightarrow> propkey \<Rightarrow> jsarray" where
  "rotate_tile a (Index i) =
     (if i < 4294967295 then arr_set a i (next_rotation (arr_get a i)) else a)"
| "rotate_tile a Length = set_length a ((length (elems a) + 1) mod 4)"
| "rotate_tile a Every = a\<lparr>every_own := True\<rparr>"
| "rotate_tile a Other = a"

section \<open>Puzzle generator\<close>

text \<open>
  The random source of one call of \<^verbatim>\<open>shufflePuzzle\<close>: \<open>cell_draw r i\<close> is the value of
  \<^verbatim>\<open>Math.floor(Math.random() * 4)\<close> in iteration \<open>i\<close> of the loop, \<open>pos_draw r\<close> the value
  of \<^verbatim>\<open>Math.floor(Math.random() * 9)\<close>. \<^verbatim>\<open>Math.random()\<close> lies in \<open>[0, 1)\<close>, which
  \<open>rnd_ok\<close> records.
\<close>

record rnd =
  cell_draw :: "nat \<Rightarrow> nat"
  pos_draw :: nat

definition rnd_ok :: "rnd \<Rightarrow> bool" where
  "rnd_ok r = (list_all (\<lambda>i. cell_draw r i < 4) [0..<9] \<and> pos_draw r < 9)"

definition shufflePuzzle :: "rnd \<Rightarrow> jsarray" where
  "shufflePuzzle r =
     (let rotations = new_array (map (\<lambda>i. Num (cell_draw r i)) [0..<9])
      in if every (\<lambda>v i. v = Num 0) rotations
         then arr_set rotations (pos_draw r) (Num 1)
         else rotations)"

datatype error = SyntaxError | TypeError | FsError

text \<open>
  \<^verbatim>\<open>gameState.correctRotation\<close>: initialised to nine zeros and never assigned again.
\<close>

definition correctRotation :: jsarray where
  "correctRotation = new_array (replicate 9 (Num 0))"

definition arraysEqual :: "jsarray \<Rightarrow> jsarray \<Rightarrow> error + bool" where
  "arraysEqual a b =
     (if every_own a then Inl TypeError
      else Inr (every (\<lambda>val i. strict_eq val (arr_get b i)) a))"

text \<open>A puzzle as the specification describes it: nine cells, each a number in 0..3.\<close>

definition puzzle_ok :: "jsarray \<Rightarrow> bool" where
  "puzzle_ok a =
     (length (elems a) = 9 \<and> \<not> every_own a
      \<and> list_all (\<lambda>c. case c of Some (Num n) \<Rightarrow> n < 4 | _ \<Rightarrow> False) (elems a))"

section \<open>Session and player state\<close>

type_synonym pid = string

datatype player_status = Joined | Playing | Finished

datatype game_status = Waiting | Ready | GamePlaying | GameFinished

text \<open>
  The player object of line 120. \<open>p_steps\<close> and \<open>p_time\<close> are JavaScript numbers that the
  server only increments or computes as a difference of two \<^verbatim>\<open>Date.now()\<close> readings.
\<close>

record player =
  p_id :: pid
  p_name :: string
  p_status :: player_status
  p_time :: int
  p_steps :: nat
  p_startTime :: "int option"
  p_finishTime :: "int option"
  p_puzzle :: jsarray

text \<open>
  \<^verbatim>\<open>gameState\<close> (line 25). \<^verbatim>\<open>players\<close> is a \<^verbatim>\<open>Map\<close>, which iterates in insertion
  order: an association list, updated in place for a key that is present and extended at
  the end for a new one.
\<close>

record gameState =
  g_status :: game_status
  g_image :: "string option"
  g_imageUrl :: "string option"
  g_players :: "(pid \<times> player) list"
  g_gameStartTime :: "int option"

definition initial_gameState :: gameState where
  "initial_gameState =
     \<lparr>g_status = Waiting, g_image = None, g_imageUrl = None, g_players = [],
      g_gameStartTime = None\<rparr>"

section \<open>Outbound messages\<close>

record entry =
  e_id :: pid
  e_name :: string
  e_status :: player_status
  e_time :: int
  e_steps :: nat
  e_finishTime :: "int option"

datatype payload =
    Init pid string "string option" jsarray game_status
  | ImageUpdate string
  | GameStart int
  | PuzzleUpdate jsarray
  | PlayerFinished pid string int nat
  | GameEnd
  | GameReset
  | Leaderboard "entry list"

text \<open>
  What a handler sends, in order: \<^verbatim>\<open>broadcast(data)\<close>, \<^verbatim>\<open>sendToPlayer(playerId, data)\<close>,
  and \<^verbatim>\<open>ws.send\<close> on the connection being set up.
\<close>

datatype out = Broadcast payload | SendToPlayer pid payload | Send payload

section \<open>Leaderboard\<close>

definition summary :: "player \<Rightarrow> entry" where
  "summary p =
     \<lparr>e_id = p_id p, e_name = p_name p, e_status = p_status p, e_time = p_time p,
      e_steps = p_steps p, e_finishTime = p_finishTime p\<rparr>"

text \<open>The comparator of lines 91 to 101.\<close>

definition compare_entries :: "entry \<Rightarrow> entry \<Rightarrow> int" where
  "compare_entries a b =
     (if e_status a = Finished \<and> e_status b = Finished then e_time a - e_time b
      else if e_status a = Finished then - 1
      else if e_status b = Finished then 1
      else int (e_steps a) - int (e_steps b))"

text \<open>
  \<^verbatim>\<open>Array.prototype.sort(cmp)\<close>, which is stable (ECMAScript 2019): an element goes in
  front of the first later element that it does not compare greater than.
\<close>

fun insert_by :: "('a \<Rightarrow> 'a \<Rightarrow> int) \<Rightarrow> 'a \<Rightarrow> 'a list \<Rightarrow> 'a list" where
  "insert_by cmp x [] = [x]"
| "insert_by cmp x (y # ys) = (if cmp x y \<le> 0 then x # y # ys else y # insert_by cmp x ys)"

fun sort_by :: "('a \<Rightarrow> 'a \<Rightarrow> int) \<Rightarrow> 'a list \<Rightarrow> 'a list" where
  "sort_by cmp [] = []"
| "sort_by cmp (x # xs) = insert_by cmp x (sort_by cmp xs)"

definition leaderboard :: "(pid \<times> player) list \<Rightarrow> entry list" where
  "leaderboard ps = sort_by compare_entries (map (\<lambda>kv. summary (snd kv)) ps)"

definition broadcastLeaderboard :: "gameState \<Rightarrow> out" where
  "broadcastLeaderboard s = Broadcast (Leaderboard (leaderboard (g_players s)))"

section \<open>Connections, inbound messages and the environment\<close>

text \<open>
  What the connection handler fixes for one socket: the \<^verbatim>\<open>uuidv4()\<close> identity, the
  generated name, and whether the request URL contains \<^verbatim>\<open>player\<close>.
\<close>

record conn =
  c_playerId :: pid
  c_playerName :: string
  c_isPlayer :: bool

text \<open>
  What one handler run reads from outside: \<open>now e k\<close> is the reading of the \<open>k\<close>-th call of
  \<^verbatim>\<open>Date.now()\<close>, \<open>random e k\<close> the random source of the \<open>k\<close>-th call of
  \<^verbatim>\<open>shufflePuzzle()\<close>, and \<open>unlink_ok e\<close> whether \<^verbatim>\<open>fs.readdirSync\<close> and every
  \<^verbatim>\<open>fs.unlinkSync\<close> of the reset succeed.
\<close>

record env =
  now :: "nat \<Rightarrow> int"
  random :: "nat \<Rightarrow> rnd"
  unlink_ok :: bool

text \<open>
  The parsed message, by its \<^verbatim>\<open>type\<close> tag. \<open>UploadImage d f\<close> carries \<^verbatim>\<open>data.imageData\<close>
  and the text that the template literal renders for \<^verbatim>\<open>data.filename\<close>; \<open>Unhandled\<close> is
  any value whose \<^verbatim>\<open>type\<close> matches no case of the switch. A \<^verbatim>\<open>playerId\<close> that is not a
  string finds no player, like an unknown string.
\<close>

datatype msg =
    UploadImage "string option" string
  | StartGame
  | Rotate pid propkey
  | ResetGame
  | Unhandled

text \<open>
  The frame as received: text that \<^verbatim>\<open>JSON.parse\<close> rejects, the JSON value
  \<^verbatim>\<open>null\<close> (reading \<^verbatim>\<open>data.type\<close> of it throws), or a parsed message.
\<close>

datatype raw = Malformed | JsonNull | Json msg

text \<open>
  The outcome of one handler run: the exception that escaped it if any, and the session
  state and the messages sent at the moment it returned or threw.
\<close>

record result =
  r_thrown :: "error option"
  r_state :: gameState
  r_outs :: "out list"

section \<open>The handlers\<close>

text \<open>\<^verbatim>\<open>if (gameState.imageUrl)\<close>: \<^verbatim>\<open>null\<close> and the empty string are falsy.\<close>

definition truthy :: "string option \<Rightarrow> bool" where
  "truthy u = (case u of None \<Rightarrow> False | Some t \<Rightarrow> t \<noteq> [])"

text \<open>The first \<^verbatim>\<open>forEach\<close> of \<^verbatim>\<open>startGame\<close> (lines 163 to 170); \<open>k\<close> counts the players done.\<close>

fun reset_players :: "env \<Rightarrow> nat \<Rightarrow> (pid \<times> player) list \<Rightarrow> (pid \<times> player) list" where
  "reset_players e k [] = []"
| "reset_players e k (kv # ps) =
     (fst kv, (snd kv)\<lparr>p_status := Playing, p_startTime := Some (now e (Suc k)), p_time := 0,
                       p_steps := 0, p_finishTime := None,
                       p_puzzle := shufflePuzzle (random e k)\<rparr>)
     # reset_players e (Suc k) ps"

text \<open>
  The \<^verbatim>\<open>startGame\<close> case (lines 157 to 187): guarded by the image URL, it resets every
  player, broadcasts the start, sends each player its puzzle and broadcasts the leaderboard.
\<close>

definition startGame :: "env \<Rightarrow> gameState \<Rightarrow> result" where
  "startGame e s =
     (if truthy (g_imageUrl s) then
        let s1 = s\<lparr>g_status := GamePlaying, g_gameStartTime := Some (now e 0),
                   g_players := reset_players e 0 (g_players s)\<rparr>
        in \<lparr>r_thrown = None, r_state = s1,
            r_outs = [Broadcast (GameStart (now e 0))]
                     @ map (\<lambda>kv. SendToPlayer (p_id (snd kv)) (PuzzleUpdate (p_puzzle (snd kv))))
                         (g_players s1)
                     @ [broadcastLeaderboard s1]\<rparr>
      else \<lparr>r_thrown = None, r_state = s, r_outs = []\<rparr>)"

text \<open>\<^verbatim>\<open>finishTime - startTime\<close>: \<^verbatim>\<open>null\<close> converts to 0.\<close>

definition elapsed :: "int \<Rightarrow> int option \<Rightarrow> int" where
  "elapsed t start = t - (case start of None \<Rightarrow> 0 | Some t0 \<Rightarrow> t0)"

text \<open>The player object is mutated in place: its entry keeps its position in the map.\<close>

definition store_player :: "pid \<Rightarrow> player \<Rightarrow> gameState \<Rightarrow> gameState" where
  "store_player k p s = s\<lparr>g_players := AList.update k p (g_players s)\<rparr>"

text \<open>
  The \<^verbatim>\<open>rotate\<close> case (lines 189 to 225). The guard tests that the player exists and is
  playing; \<^verbatim>\<open>data.tileIndex\<close> is used as it arrives. The step is counted before the
  completion check, so a TypeError of \<^verbatim>\<open>arraysEqual\<close> leaves the rotated puzzle and the
  counted step behind.
\<close>

definition handle_rotate :: "env \<Rightarrow> pid \<Rightarrow> propkey \<Rightarrow> gameState \<Rightarrow> result" where
  "handle_rotate e playerId tileIndex s =
     (case map_of (g_players s) playerId of
        None \<Rightarrow> \<lparr>r_thrown = None, r_state = s, r_outs = []\<rparr>
      | Some player \<Rightarrow>
          if p_status player \<noteq> Playing then \<lparr>r_thrown = None, r_state = s, r_outs = []\<rparr>
          else
            let puzzle = rotate_tile (p_puzzle player) tileIndex;
                player1 = player\<lparr>p_puzzle := puzzle, p_steps := p_steps player + 1\<rparr>;
                s1 = store_player playerId player1 s
            in case arraysEqual puzzle correctRotation of
                 Inl err \<Rightarrow> \<lparr>r_thrown = Some err, r_state = s1, r_outs = []\<rparr>
               | Inr False \<Rightarrow>
                   \<lparr>r_thrown = None, r_state = s1, r_outs = [broadcastLeaderboard s1]\<rparr>
               | Inr True \<Rightarrow>
                   let player2 = player1\<lparr>p_status := Finished, p_finishTime := Some (now e 0),
                                         p_time := elapsed (now e 0) (p_startTime player1)\<rparr>;
                       s2 = store_player playerId player2 s;
                       allFinished = list_all (\<lambda>kv. p_status (snd kv) = Finished) (g_players s2);
                       s3 = (if allFinished then s2\<lparr>g_status := GameFinished\<rparr> else s2)
                   in \<lparr>r_thrown = None, r_state = s3,
                       r_outs = [Broadcast (PlayerFinished (p_id player2) (p_name player2)
                                              (p_time player2) (p_steps player2))]
                                @ (if allFinished then [Broadcast GameEnd] else [])
                                @ [broadcastLeaderboard s3]\<rparr>)"

text \<open>
  The \<^verbatim>\<open>resetGame\<close> case (lines 227 to 244): the state is cleared first, then the upload
  directory is listed and emptied, then the two broadcasts follow. An exception of the file
  system calls leaves the handler between the two.
\<close>

definition resetGame :: "env \<Rightarrow> gameState \<Rightarrow> result" where
  "resetGame e s =
     (let s1 = s\<lparr>g_status := Waiting, g_image := None, g_imageUrl := None, g_players := [],
                 g_gameStartTime := None\<rparr>
      in if unlink_ok e
         then \<lparr>r_thrown = None, r_state = s1,
               r_outs = [Broadcast GameReset, broadcastLeaderboard s1]\<rparr>
         else \<lparr>r_thrown = Some FsError, r_state = s1, r_outs = []\<rparr>)"

text \<open>The \<^verbatim>\<open>uploadImage\<close> case (lines 148 to 155).\<close>

definition uploadImage :: "string option \<Rightarrow> string \<Rightarrow> gameState \<Rightarrow> result" where
  "uploadImage imageData filename s =
     (let url = ''/uploads/'' @ filename
      in \<lparr>r_thrown = None, r_state = s\<lparr>g_image := imageData, g_imageUrl := Some url\<rparr>,
          r_outs = [Broadcast (ImageUpdate url)]\<rparr>)"

text \<open>
  The \<^verbatim>\<open>message\<close> listener of the connection \<open>c\<close> (lines 144 to 246). The closure can see
  \<open>c\<close>; no branch reads it.
\<close>

fun onMessage :: "conn \<Rightarrow> env \<Rightarrow> raw \<Rightarrow> gameState \<Rightarrow> result" where
  "onMessage c e Malformed s = \<lparr>r_thrown = Some SyntaxError, r_state = s, r_outs = []\<rparr>"
| "onMessage c e JsonNull s = \<lparr>r_thrown = Some TypeError, r_state = s, r_outs = []\<rparr>"
| "onMessage c e (Json (UploadImage imageData filename)) s = uploadImage imageData filename s"
| "onMessage c e (Json StartGame) s = startGame e s"
| "onMessage c e (Json (Rotate playerId tileIndex)) s = handle_rotate e playerId tileIndex s"
| "onMessage c e (Json ResetGame) s = resetGame e s"
| "onMessage c e (Json Unhandled) s = \<lparr>r_thrown = None, r_state = s, r_outs = []\<rparr>"

text \<open>The \<^verbatim>\<open>connection\<close> listener (lines 110 to 142).\<close>

definition onConnection :: "conn \<Rightarrow> env \<Rightarrow> gameState \<Rightarrow> result" where
  "onConnection c e s =
     (if c_isPlayer c then
        let p = \<lparr>p_id = c_playerId c, p_name = c_playerName c, p_status = Joined, p_time = 0,
                 p_steps = 0, p_startTime = None, p_finishTime = None,
                 p_puzzle = shufflePuzzle (random e 0)\<rparr>;
            s1 = store_player (c_playerId c) p s
        in \<lparr>r_thrown = None, r_state = s1,
            r_outs = [Send (Init (c_playerId c) (c_playerName c) (g_imageUrl s1) (p_puzzle p)
                              (g_status s1)),
                      broadcastLeaderboard s1]\<rparr>
      else \<lparr>r_thrown = None, r_state = s, r_outs = []\<rparr>)"

text \<open>The \<^verbatim>\<open>close\<close> listener (lines 248 to 253).\<close>

definition onClose :: "conn \<Rightarrow> gameState \<Rightarrow> result" where
  "onClose c s =
     (if map_of (g_players s) (c_playerId c) \<noteq> None then
        let s1 = s\<lparr>g_players := AList.delete (c_playerId c) (g_players s)\<rparr>
        in \<lparr>r_thrown = None, r_state = s1, r_outs = [broadcastLeaderboard s1]\<rparr>
      else \<lparr>r_thrown = None, r_state = s, r_outs = []\<rparr>)"

section \<open>The server as a run over events\<close>

datatype event = Connection conn env | Message conn env raw | Close conn

fun step :: "event \<Rightarrow> gameState \<Rightarrow> result" where
  "step (Connection c e) s = onConnection c e s"
| "step (Message c e m) s = onMessage c e m s"
| "step (Close c) s = onClose c s"

text \<open>
  Node runs one listener to completion before the next. An exception that escapes a
  listener is uncaught (\<^verbatim>\<open>server.js\<close> installs no \<^verbatim>\<open>uncaughtException\<close> handler, and
  the socket's \<^verbatim>\<open>error\<close> listener does not receive it), which ends the process: the run
  stops there and no later event is handled.
\<close>

fun run :: "gameState \<Rightarrow> event list \<Rightarrow> result" where
  "run s [] = \<lparr>r_thrown = None, r_state = s, r_outs = []\<rparr>"
| "run s (ev # evs) =
     (let r = step ev s
      in case r_thrown r of
           Some err \<Rightarrow> r
         | None \<Rightarrow> (let r' = run (r_state r) evs in r'\<lparr>r_outs := r_outs r @ r_outs r'\<rparr>))"

section \<open>Ranking rule\<close>

text \<open>
  The ordering rule in words: among finished players ascending elapsed time, finished
  players before all others, among the others ascending step count.
\<close>

definition precedes :: "entry \<Rightarrow> entry \<Rightarrow> bool" where
  "precedes a b =
     ((e_status a = Finished \<and> e_status b = Finished \<longrightarrow> e_time a \<le> e_time b)
      \<and> (e_status b = Finished \<longrightarrow> e_status a = Finished)
      \<and> (e_status a \<noteq> Finished \<and> e_status b \<noteq> Finished \<longrightarrow> e_steps a \<le> e_steps b))"

text \<open>The tier of an entry and the value it is compared by inside its tier.\<close>

definition rank_key :: "entry \<Rightarrow> nat \<times> int" where
  "rank_key a = (if e_status a = Finished then (0, e_time a) else (1, int (e_steps a)))"

definition example_player :: "pid \<Rightarrow> player_status \<Rightarrow> int \<Rightarrow> nat \<Rightarrow> pid \<times> player" where
  "example_player k st t n =
     (k, \<lparr>p_id = k, p_name = k, p_status = st, p_time = t, p_steps = n, p_startTime = None,
          p_finishTime = None, p_puzzle = correctRotation\<rparr>)"

definition example_registry :: "(pid \<times> player) list" where
  "example_registry =
     [example_player ''A'' Finished 120 9, example_player ''B'' Finished 80 30,
      example_player ''C'' Playing 0 5, example_player ''D'' Playing 0 2]"

section \<open>Example inputs\<close>

text \<open>
  A random source whose draw is 3, 0, 0, ..., a clock that reads 1000, 1001, ..., a player
  connection and an observer connection, and the events of a session in which the player
  joins, an image is published and the round is started.
\<close>

definition example_rnd :: rnd where
  "example_rnd = \<lparr>cell_draw = (\<lambda>i. if i = 0 then 3 else 0), pos_draw = 4\<rparr>"

definition example_env :: env where
  "example_env = \<lparr>now = (\<lambda>k. 1000 + int k), random = (\<lambda>k. example_rnd), unlink_ok = True\<rparr>"

definition alice :: conn where
  "alice = \<lparr>c_playerId = ''alice'', c_playerName = ''Alice'', c_isPlayer = True\<rparr>"

definition observer :: conn where
  "observer = \<lparr>c_playerId = ''admin'', c_playerName = ''Admin'', c_isPlayer = False\<rparr>"

definition example_joined :: "event list" where
  "example_joined =
     [Connection observer example_env, Connection alice example_env,
      Message observer example_env (Json (UploadImage None ''a.png''))]"

definition example_round :: "event list" where
  "example_round = example_joined @ [Message observer example_env (Json StartGame)]"

definition failing_env :: env where
  "failing_env = example_env\<lparr>unlink_ok := False\<rparr>"

definition later_env :: env where
  "later_env = example_env\<lparr>now := (\<lambda>k. 5000 + int k)\<rparr>"

definition alice_playing :: player where
  "alice_playing =
     \<lparr>p_id = ''alice'', p_name = ''Alice'', p_status = Playing, p_time = 0, p_steps = 0,
      p_startTime = Some 1001, p_finishTime = None, p_puzzle = shufflePuzzle example_rnd\<rparr>"

section \<open>Well-formed inputs\<close>

text \<open>A tile index that addresses one of the nine cells.\<close>

fun tile_ok :: "propkey \<Rightarrow> bool" where
  "tile_ok (Index i) = (i < 9)"
| "tile_ok _ = False"

text \<open>Every random source of a handler run draws in range.\<close>

definition env_ok :: "env \<Rightarrow> bool" where
  "env_ok e = (\<forall>k. rnd_ok (random e k))"

text \<open>
  An event whose random draws are in range where it generates puzzles, and whose rotate
  message, if it is one, addresses one of the nine cells.
\<close>

fun event_ok :: "event \<Rightarrow> bool" where
  "event_ok (Connection c e) = env_ok e"
| "event_ok (Message c e (Json StartGame)) = env_ok e"
| "event_ok (Message c e (Json (Rotate k t))) = tile_ok t"
| "event_ok _ = True"

definition players_ok :: "gameState \<Rightarrow> bool" where
  "players_ok s = list_all (\<lambda>kv. puzzle_ok (p_puzzle (snd kv))) (g_players s)"

section \<open>Order of the player statuses\<close>

fun status_rank :: "player_status \<Rightarrow> nat" where
  "status_rank Joined = 0"
| "status_rank Playing = 1"
| "status_rank Finished = 2"

text \<open>
  An event that is neither a start-round message nor the connection of a player under the
  identity \<open>k\<close> (identities are fresh UUIDs).
\<close>

fun keeps_order :: "pid \<Rightarrow> event \<Rightarrow> bool" where
  "keeps_order k (Message c e (Json StartGame)) = False"
| "keeps_order k (Connection c e) = (c_playerId c \<noteq> k)"
| "keeps_order k _ = True"

text \<open>The same status, or the one step from Playing to Finished.\<close>

definition advances :: "player_status \<Rightarrow> player_status \<Rightarrow> bool" where
  "advances a b = (b = a \<or> (a = Playing \<and> b = Finished))"

definition finished_round :: "event list" where
  "finished_round =
     example_round @ [Message observer later_env (Json (Rotate ''alice'' (Index 0)))]"

definition alice_finished :: player where
  "alice_finished =
     \<lparr>p_id = ''alice'', p_name = ''Alice'', p_status = Finished, p_time = 3999, p_steps = 1,
      p_startTime = Some 1001, p_finishTime = Some 5000, p_puzzle = correctRotation\<rparr>"

section \<open>Rotation histories\<close>

text \<open>A rotate message that addresses one of the nine cells, for any player.\<close>

fun rotation_msg :: "event \<Rightarrow> bool" where
  "rotation_msg (Message c e (Json (Rotate k (Index i)))) = (i < 9)"
| "rotation_msg _ = False"

text \<open>A rotate message for the player \<open>k\<close> on a cell that satisfies \<open>P\<close>.\<close>

fun rotates :: "pid \<Rightarrow> (nat \<Rightarrow> bool) \<Rightarrow> event \<Rightarrow> bool" where
  "rotates k P (Message c e (Json (Rotate k' (Index i)))) = (k' = k \<and> P i)"
| "rotates k P _ = False"

definition is_playing :: "gameState \<Rightarrow> pid \<Rightarrow> bool" where
  "is_playing s k = (case map_of (g_players s) k of None \<Rightarrow> False | Some p \<Rightarrow> p_status p = Playing)"

text \<open>
  The number of rotations of the player \<open>k\<close> on cells satisfying \<open>P\<close> that the server
  accepts along a history: those that arrive while the player's status is Playing.
\<close>

fun accepted :: "pid \<Rightarrow> (nat \<Rightarrow> bool) \<Rightarrow> gameState \<Rightarrow> event list \<Rightarrow> nat" where
  "accepted k P s [] = 0"
| "accepted k P s (ev # evs) =
     (if rotates k P ev \<and> is_playing s k then 1 else 0)
     + accepted k P (r_state (step ev s)) evs"

text \<open>The value of a cell after \<open>m\<close> further rotations.\<close>

fun turned :: "nat \<Rightarrow> jsnum option \<Rightarrow> jsnum option" where
  "turned m (Some (Num n)) = Some (Num ((n + m) mod 4))"
| "turned m c = c"

text \<open>
  The running round of the example followed by a rotate message for the player whose
  tile index is 9, one past the last cell.
\<close>

definition outside_round :: "event list" where
  "outside_round =
     example_round @ [Message observer later_env (Json (Rotate ''alice'' (Index 9)))]"

section \<open>Facts about arrays and the puzzle generator\<close>

lemma every_iff: "every f a = (\<forall>i < length (elems a). case elems a ! i of None \<Rightarrow> True | Some v \<Rightarrow> f v i)"
  by (auto simp: every_def list_all_iff)

lemma elems_new_array [simp]: "elems (new_array vs) = map Some vs"
  and every_own_new_array [simp]: "every_own (new_array vs) = False"
  by (simp_all add: new_array_def)

lemma every_new_array: "every f (new_array vs) = (\<forall>i < length vs. f (vs ! i) i)"
  by (simp add: every_iff)

lemma arr_get_correctRotation: "arr_get correctRotation i = (if i < 9 then Some (Num 0) else None)"
  by (simp add: arr_get_def correctRotation_def)

lemma strict_eq_zero: "strict_eq v (Some (Num 0)) = (v = Num 0)"
  by (cases v) auto

lemma strict_eq_undefined: "strict_eq v None = False"
  by (cases v) auto

lemma slot_solved: "(case c of None \<Rightarrow> True | Some v \<Rightarrow> strict_eq v (arr_get correctRotation i))
  = (c = None \<or> (i < 9 \<and> c = Some (Num 0)))"
  by (cases c) (auto simp: arr_get_correctRotation strict_eq_zero strict_eq_undefined)

lemma arraysEqual_correctRotation:
  "arraysEqual a correctRotation =
     (if every_own a then Inl TypeError
      else Inr (\<forall>i < length (elems a). elems a ! i = None \<or> (i < 9 \<and> elems a ! i = Some (Num 0))))"
  by (simp add: arraysEqual_def every_iff slot_solved)

lemma arraysEqual_puzzle_ok:
  assumes "puzzle_ok a"
  shows "arraysEqual a correctRotation = Inr (list_all (\<lambda>c. c = Some (Num 0)) (elems a))"
proof -
  have len: "length (elems a) = 9" and own: "\<not> every_own a"
    and cells: "\<forall>i < 9. elems a ! i \<noteq> None"
    using assms by (auto simp: puzzle_ok_def list_all_length split: option.splits)
  show ?thesis
    using len own cells by (fastforce simp: arraysEqual_correctRotation list_all_length)
qed

lemma shufflePuzzle_zero_draw:
  assumes "\<forall>i<9. cell_draw r i = 0"
  shows "shufflePuzzle r = arr_set correctRotation (pos_draw r) (Num 1)"
proof -
  have "map (\<lambda>i. Num (cell_draw r i)) [0..<9] = replicate 9 (Num 0)"
    using assms by (intro nth_equalityI) auto
  then show ?thesis
    by (simp add: shufflePuzzle_def correctRotation_def every_new_array)
qed

lemma shufflePuzzle_nonzero_draw:
  assumes "\<not> (\<forall>i<9. cell_draw r i = 0)"
  shows "shufflePuzzle r = new_array (map (\<lambda>i. Num (cell_draw r i)) [0..<9])"
  using assms by (auto simp add: shufflePuzzle_def every_new_array Let_def)

lemma puzzle_ok_iff: "puzzle_ok a = (length (elems a) = 9 \<and> \<not> every_own a \<and> (\<forall>i<9. \<exists>n<4. elems a ! i = Some (Num n)))"
  apply (auto simp: puzzle_ok_def list_all_length split: option.splits jsnum.splits)
  by (metis jsnum.exhaust option.exhaust)+

lemma shufflePuzzle_ok: assumes "rnd_ok r" shows "puzzle_ok (shufflePuzzle r)"
proof (cases "\<forall>i<9. cell_draw r i = 0")
  case True
  have "pos_draw r < 9" using assms by (simp add: rnd_ok_def)
  then show ?thesis
    unfolding shufflePuzzle_zero_draw[OF True] puzzle_ok_iff
    by (auto simp: arr_set_def correctRotation_def nth_list_update)
next
  case False
  have "\<forall>i<9. cell_draw r i < 4" using assms by (simp add: rnd_ok_def list_all_iff)
  then show ?thesis
    unfolding shufflePuzzle_nonzero_draw[OF False] puzzle_ok_iff
    by auto
qed

lemma shufflePuzzle_unsolved: "arraysEqual (shufflePuzzle r) correctRotation = Inr False"
proof (cases "\<forall>i<9. cell_draw r i = 0")
  case True
  show ?thesis
    unfolding shufflePuzzle_zero_draw[OF True] arraysEqual_correctRotation
    apply (simp add: arr_set_def correctRotation_def nth_list_update new_array_def)
    apply (intro conjI impI)
     apply (rule exI[of _ "pos_draw r"]) apply simp
     apply (rule exI[of _ "pos_draw r"]) apply (simp add: nth_append)
    done
next
  case False
  then obtain i where "i < 9" "cell_draw r i \<noteq> 0" by auto
  then show ?thesis
    unfolding shufflePuzzle_nonzero_draw[OF False] arraysEqual_correctRotation
    by (auto intro!: exI[of _ i])
qed

section \<open>The puzzle generator never produces the target configuration\<close>

text \<open>
  Claim C9. For every random source whose draws are in range, \<^verbatim>\<open>shufflePuzzle\<close> returns
  nine rotation values in 0..3 that are not the all-zero target configuration
  (\<^verbatim>\<open>arraysEqual\<close> against \<^verbatim>\<open>correctRotation\<close> is false); when the nine draws are all
  zero, the result is the target with the randomly chosen position set to 1.
\<close>

theorem shufflePuzzle_never_target:
  assumes "rnd_ok r"
  shows "puzzle_ok (shufflePuzzle r)
       \<and> shufflePuzzle r \<noteq> correctRotation
       \<and> arraysEqual (shufflePuzzle r) correctRotation = Inr False
       \<and> (list_all (\<lambda>i. cell_draw r i = 0) [0..<9] \<longrightarrow>
            shufflePuzzle r = arr_set correctRotation (pos_draw r) (Num 1)
          \<and> arr_get (shufflePuzzle r) (pos_draw r) = Some (Num 1))"
proof -
  have ok: "puzzle_ok (shufflePuzzle r)"
    using assms by (rule shufflePuzzle_ok)
  have unsolved: "arraysEqual (shufflePuzzle r) correctRotation = Inr False"
    by (rule shufflePuzzle_unsolved)
  have "arraysEqual correctRotation correctRotation = Inr True"
    by (simp add: arraysEqual_correctRotation) (simp add: correctRotation_def)
  with unsolved have ne: "shufflePuzzle r \<noteq> correctRotation"
    by auto
  have forced: "shufflePuzzle r = arr_set correctRotation (pos_draw r) (Num 1)
              \<and> arr_get (shufflePuzzle r) (pos_draw r) = Some (Num 1)"
    if z: "list_all (\<lambda>i. cell_draw r i = 0) [0..<9]"
  proof -
    have "\<forall>i<9. cell_draw r i = 0"
      using z by (simp add: list_all_iff)
    then have eq: "shufflePuzzle r = arr_set correctRotation (pos_draw r) (Num 1)"
      by (rule shufflePuzzle_zero_draw)
    have "pos_draw r < 9"
      using assms by (simp add: rnd_ok_def)
    then have "arr_get (arr_set correctRotation (pos_draw r) (Num 1)) (pos_draw r) = Some (Num 1)"
      by (simp add: arr_get_def arr_set_def correctRotation_def)
    with eq show ?thesis by simp
  qed
  from ok ne unsolved forced show ?thesis by blast
qed

theorem shufflePuzzle_never_target_witness:
  "rnd_ok \<lparr>cell_draw = (\<lambda>i. 0), pos_draw = 4\<rparr>
   \<and> list_all (\<lambda>i. cell_draw \<lparr>cell_draw = (\<lambda>i. 0), pos_draw = 4\<rparr> i = 0) [0..<9]
   \<and> puzzle_ok (shufflePuzzle \<lparr>cell_draw = (\<lambda>i. 0), pos_draw = 4\<rparr>)
   \<and> arraysEqual (shufflePuzzle \<lparr>cell_draw = (\<lambda>i. 0), pos_draw = 4\<rparr>) correctRotation = Inr False
   \<and> arr_get (shufflePuzzle \<lparr>cell_draw = (\<lambda>i. 0), pos_draw = 4\<rparr>) 4 = Some (Num 1)"
proof -
  have h: "rnd_ok \<lparr>cell_draw = (\<lambda>i. 0), pos_draw = 4\<rparr>"
    by (simp add: rnd_ok_def list_all_iff)
  have z: "list_all (\<lambda>i. cell_draw \<lparr>cell_draw = (\<lambda>i. 0), pos_draw = 4\<rparr> i = 0) [0..<9]"
    by (simp add: list_all_iff)
  show ?thesis
    using h z shufflePuzzle_never_target [OF h] by auto
qed

section \<open>Leaderboard ranking\<close>

lemma compare_entries_key: "(compare_entries a b \<le> 0) = (rank_key a \<le> rank_key b)"
  by (simp add: compare_entries_def rank_key_def)

lemma compare_entries_tie: "(compare_entries a b = 0) = (rank_key b = rank_key a)"
  by (auto simp: compare_entries_def rank_key_def)

lemma insert_by_key: "insert_by compare_entries x ys = insort_key rank_key x ys"
  by (induction ys) (simp_all add: compare_entries_key)

lemma sort_by_key: "sort_by compare_entries xs = sort_key rank_key xs"
  by (induction xs) (simp_all add: insert_by_key)

lemma precedes_key: "precedes a b = (rank_key a \<le> rank_key b)"
  by (auto simp: precedes_def rank_key_def)

lemma sorted_leaderboard: "sorted_wrt precedes (leaderboard ps)"
proof -
  have "sorted (map rank_key (sort_key rank_key (map (\<lambda>kv. summary (snd kv)) ps)))"
    by (rule sorted_sort_key)
  then show ?thesis
    by (simp add: leaderboard_def sort_by_key sorted_map precedes_key [abs_def])
qed

lemma mset_leaderboard: "mset (leaderboard ps) = mset (map (\<lambda>kv. summary (snd kv)) ps)"
  by (simp add: leaderboard_def sort_by_key)

lemma stable_leaderboard:
  "filter (\<lambda>b. compare_entries a b = 0) (leaderboard ps)
   = filter (\<lambda>b. compare_entries a b = 0) (map (\<lambda>kv. summary (snd kv)) ps)"
  by (simp add: leaderboard_def sort_by_key sort_key_stable compare_entries_tie)

lemma leaderboard_example:
  "map e_id (leaderboard example_registry) = [''B'', ''A'', ''D'', ''C'']"
  by (simp add: leaderboard_def example_registry_def example_player_def summary_def
      compare_entries_def)

text \<open>
  Claim C6. The leaderboard is the current player snapshot rearranged (same entries, same
  multiplicities) and ordered by the ranking rule, which is total and transitive: finished
  players ascend by elapsed time, every finished player precedes every unfinished one,
  unfinished players ascend by step count, and the entries that tie with any given entry
  keep the order in which the registry iterates. The registry A (finished, 120 ms),
  B (finished, 80 ms), C (playing, 5 steps), D (playing, 2 steps) ranks as B, A, D, C.
\<close>

theorem leaderboard_ranking:
  "mset (leaderboard ps) = mset (map (\<lambda>kv. summary (snd kv)) ps)
   \<and> sorted_wrt precedes (leaderboard ps)
   \<and> (\<forall>a b. precedes a b \<or> precedes b a)
   \<and> (\<forall>a b c. precedes a b \<longrightarrow> precedes b c \<longrightarrow> precedes a c)
   \<and> (\<forall>a. filter (\<lambda>b. compare_entries a b = 0) (leaderboard ps)
          = filter (\<lambda>b. compare_entries a b = 0) (map (\<lambda>kv. summary (snd kv)) ps))
   \<and> map e_id (leaderboard example_registry) = [''B'', ''A'', ''D'', ''C'']"
proof -
  have total: "\<forall>a b. precedes a b \<or> precedes b a"
    by (auto simp: precedes_key)
  have trans: "\<forall>a b c. precedes a b \<longrightarrow> precedes b c \<longrightarrow> precedes a c"
    by (auto simp: precedes_key)
  show ?thesis
    using mset_leaderboard sorted_leaderboard total trans stable_leaderboard leaderboard_example
    by blast
qed

theorem leaderboard_ranking_witness:
  "sorted_wrt precedes (leaderboard example_registry)
   \<and> map e_id (leaderboard example_registry) = [''B'', ''A'', ''D'', ''C'']
   \<and> precedes (summary (snd (example_player ''B'' Finished 80 30)))
        (summary (snd (example_player ''C'' Playing 0 5)))"
  using leaderboard_ranking [of example_registry]
  by (simp add: precedes_def summary_def example_player_def)

section \<open>Round start\<close>

lemma length_reset_players [simp]: "length (reset_players e k ps) = length ps"
  by (induction ps arbitrary: k) simp_all

lemma keys_reset_players [simp]: "map fst (reset_players e k ps) = map fst ps"
  by (induction ps arbitrary: k) simp_all

lemma nth_reset_players:
  "i < length ps \<Longrightarrow>
   snd (reset_players e k ps ! i) =
     (snd (ps ! i))\<lparr>p_status := Playing, p_startTime := Some (now e (Suc (k + i))), p_time := 0,
                     p_steps := 0, p_finishTime := None,
                     p_puzzle := shufflePuzzle (random e (k + i))\<rparr>"
proof (induction ps arbitrary: k i)
  case Nil
  then show ?case by simp
next
  case (Cons kv ps)
  show ?case
  proof (cases i)
    case 0
    then show ?thesis by simp
  next
    case (Suc j)
    with Cons.prems have "j < length ps" by simp
    from Cons.IH [OF this, of "Suc k"] Suc show ?thesis by simp
  qed
qed

lemma url_store_player [simp]: "g_imageUrl (store_player k p s) = g_imageUrl s"
  by (simp add: store_player_def)

lemma url_rotate: "g_imageUrl (r_state (handle_rotate e k t s)) = g_imageUrl s"
  by (simp add: handle_rotate_def Let_def split: option.splits sum.splits bool.splits)

lemma url_startGame: "g_imageUrl (r_state (startGame e s)) = g_imageUrl s"
  by (simp add: startGame_def Let_def)

lemma url_onMessage:
  "g_imageUrl s \<noteq> Some [] \<Longrightarrow> g_imageUrl (r_state (onMessage c e m s)) \<noteq> Some []"
  by (cases "(c, e, m, s)" rule: onMessage.cases)
    (simp_all add: url_rotate url_startGame uploadImage_def resetGame_def Let_def)

lemma url_step: "g_imageUrl s \<noteq> Some [] \<Longrightarrow> g_imageUrl (r_state (step ev s)) \<noteq> Some []"
  by (cases ev) (simp_all add: url_onMessage onConnection_def onClose_def Let_def)

lemma run_invariant:
  assumes "P s" and "\<And>ev t. P t \<Longrightarrow> Q ev \<Longrightarrow> P (r_state (step ev t))" and "list_all Q evs"
  shows "P (r_state (run s evs))"
  using assms(1,3)
proof (induction evs arbitrary: s)
  case Nil
  then show ?case by simp
next
  case (Cons ev evs)
  have "P (r_state (step ev s))" using Cons.prems assms(2) by simp
  with Cons show ?case by (simp add: Let_def split: option.splits)
qed

lemma url_run: "g_imageUrl s \<noteq> Some [] \<Longrightarrow> g_imageUrl (r_state (run s evs)) \<noteq> Some []"
  using run_invariant [where P = "\<lambda>s. g_imageUrl s \<noteq> Some []" and Q = "\<lambda>ev. True" and evs = evs]
  by (simp add: url_step list_all_iff)

lemma truthy_reachable:
  "truthy (g_imageUrl (r_state (run initial_gameState evs)))
   = (g_imageUrl (r_state (run initial_gameState evs)) \<noteq> None)"
  using url_run [of initial_gameState evs]
  by (auto simp: truthy_def initial_gameState_def split: option.splits)

lemma example_puzzle:
  "shufflePuzzle example_rnd = new_array [Num 3, Num 0, Num 0, Num 0, Num 0, Num 0, Num 0, Num 0, Num 0]"
  by (simp add: shufflePuzzle_def example_rnd_def every_def new_array_def upt_rec)

lemma example_joined_state:
  "run initial_gameState example_joined =
     \<lparr>r_thrown = None,
      r_state = \<lparr>g_status = Waiting, g_image = None, g_imageUrl = Some ''/uploads/a.png'',
                 g_players = [(''alice'', \<lparr>p_id = ''alice'', p_name = ''Alice'', p_status = Joined,
                                p_time = 0, p_steps = 0, p_startTime = None, p_finishTime = None,
                                p_puzzle = shufflePuzzle example_rnd\<rparr>)],
                 g_gameStartTime = None\<rparr>,
      r_outs = [Send (Init ''alice'' ''Alice'' None (shufflePuzzle example_rnd) Waiting),
                Broadcast (Leaderboard [\<lparr>e_id = ''alice'', e_name = ''Alice'', e_status = Joined,
                    e_time = 0, e_steps = 0, e_finishTime = None\<rparr>]),
                Broadcast (ImageUpdate ''/uploads/a.png'')]\<rparr>"
  by (simp add: example_joined_def initial_gameState_def onConnection_def observer_def alice_def
      example_env_def store_player_def uploadImage_def broadcastLeaderboard_def leaderboard_def
      summary_def Let_def)

lemma initial_url: "g_imageUrl initial_gameState = None"
  by (simp add: initial_gameState_def)

text \<open>
  Claim C7. In every state the server can reach, a start-round request is a silent no-op
  when the image URL is null. Otherwise it returns normally with the session status
  Playing and the round start time set to the clock reading, and every registered player,
  whatever its status was, keeps its identity and name and has status Playing, step count
  0, elapsed time 0, its start time set to a clock reading, no finish time, and a freshly
  generated puzzle.
\<close>

theorem startGame_resets_every_player:
  assumes "s = r_state (run initial_gameState evs)"
  shows "(g_imageUrl s = None \<longrightarrow>
            onMessage c e (Json StartGame) s = \<lparr>r_thrown = None, r_state = s, r_outs = []\<rparr>)
       \<and> (g_imageUrl s \<noteq> None \<longrightarrow>
            r_thrown (onMessage c e (Json StartGame) s) = None
          \<and> g_status (r_state (onMessage c e (Json StartGame) s)) = GamePlaying
          \<and> g_gameStartTime (r_state (onMessage c e (Json StartGame) s)) = Some (now e 0)
          \<and> map fst (g_players (r_state (onMessage c e (Json StartGame) s))) = map fst (g_players s)
          \<and> (\<forall>i < length (g_players s).
                snd (g_players (r_state (onMessage c e (Json StartGame) s)) ! i) =
                  (snd (g_players s ! i))
                    \<lparr>p_status := Playing, p_startTime := Some (now e (Suc i)), p_time := 0,
                     p_steps := 0, p_finishTime := None,
                     p_puzzle := shufflePuzzle (random e i)\<rparr>))"
proof -
  have t: "truthy (g_imageUrl s) = (g_imageUrl s \<noteq> None)"
    unfolding assms by (rule truthy_reachable)
  show ?thesis
  proof (cases "g_imageUrl s")
    case None
    then show ?thesis
      by (simp add: startGame_def truthy_def)
  next
    case (Some u)
    with t have "u \<noteq> []" by (simp add: truthy_def)
    with Some show ?thesis
      by (simp add: startGame_def Let_def nth_reset_players truthy_def)
  qed
qed

theorem startGame_resets_every_player_witness:
  "g_imageUrl (r_state (run initial_gameState example_joined)) \<noteq> None
   \<and> 0 < length (g_players (r_state (run initial_gameState example_joined)))
   \<and> p_status (snd (g_players (r_state (onMessage observer example_env (Json StartGame)
         (r_state (run initial_gameState example_joined)))) ! 0)) = Playing
   \<and> g_status (r_state (onMessage observer example_env (Json StartGame)
         (r_state (run initial_gameState example_joined)))) = GamePlaying
   \<and> onMessage observer example_env (Json StartGame) (r_state (run initial_gameState []))
       = \<lparr>r_thrown = None, r_state = initial_gameState, r_outs = []\<rparr>"
  using startGame_resets_every_player [OF refl, of example_joined observer example_env]
    startGame_resets_every_player [OF refl, of "[]" observer example_env]
  by (simp add: example_joined_state initial_url)

section \<open>Reset\<close>

lemma example_round_state:
  "run initial_gameState example_round =
     \<lparr>r_thrown = None,
      r_state = \<lparr>g_status = GamePlaying, g_image = None, g_imageUrl = Some ''/uploads/a.png'',
                 g_players = [(''alice'', \<lparr>p_id = ''alice'', p_name = ''Alice'', p_status = Playing,
                                p_time = 0, p_steps = 0, p_startTime = Some 1001,
                                p_finishTime = None, p_puzzle = shufflePuzzle example_rnd\<rparr>)],
                 g_gameStartTime = Some 1000\<rparr>,
      r_outs = [Send (Init ''alice'' ''Alice'' None (shufflePuzzle example_rnd) Waiting),
                Broadcast (Leaderboard [\<lparr>e_id = ''alice'', e_name = ''Alice'', e_status = Joined,
                    e_time = 0, e_steps = 0, e_finishTime = None\<rparr>]),
                Broadcast (ImageUpdate ''/uploads/a.png''),
                Broadcast (GameStart 1000),
                SendToPlayer ''alice'' (PuzzleUpdate (shufflePuzzle example_rnd)),
                Broadcast (Leaderboard [\<lparr>e_id = ''alice'', e_name = ''Alice'', e_status = Playing,
                    e_time = 0, e_steps = 0, e_finishTime = None\<rparr>])]\<rparr>"
  by (simp add: example_round_def example_joined_def initial_gameState_def onConnection_def
      observer_def alice_def example_env_def store_player_def uploadImage_def startGame_def
      truthy_def broadcastLeaderboard_def leaderboard_def summary_def Let_def)

lemma run_append:
  "r_thrown (run s xs) = None \<Longrightarrow>
   run s (xs @ ys)
     = (run (r_state (run s xs)) ys)
         \<lparr>r_outs := r_outs (run s xs) @ r_outs (run (r_state (run s xs)) ys)\<rparr>"
  by (induction xs arbitrary: s) (auto simp: Let_def split: option.splits)

text \<open>
  Claim C8, at a failing input. A reset arrives in a running round and the deletion of
  the uploaded files fails. The exception leaves the handler after the state is cleared
  and before anything is broadcast: neither the reset event nor the empty leaderboard is
  sent. The exception is uncaught, so the run ends there, the messages sent are those of
  the round before the reset, and the connection that follows is never handled.
\<close>

theorem reset_silent_when_deletion_fails:
  "onMessage observer failing_env (Json ResetGame)
      (r_state (run initial_gameState example_round))
     = \<lparr>r_thrown = Some FsError,
        r_state = \<lparr>g_status = Waiting, g_image = None, g_imageUrl = None, g_players = [],
                   g_gameStartTime = None\<rparr>,
        r_outs = []\<rparr>
   \<and> r_thrown (run initial_gameState
        (example_round @ [Message observer failing_env (Json ResetGame),
                          Connection alice example_env])) = Some FsError
   \<and> r_outs (run initial_gameState
        (example_round @ [Message observer failing_env (Json ResetGame),
                          Connection alice example_env]))
       = r_outs (run initial_gameState example_round)"
proof -
  have ok: "r_thrown (run initial_gameState example_round) = None"
    by (simp add: example_round_state)
  have reset: "onMessage observer failing_env (Json ResetGame)
      (r_state (run initial_gameState example_round))
     = \<lparr>r_thrown = Some FsError,
        r_state = \<lparr>g_status = Waiting, g_image = None, g_imageUrl = None, g_players = [],
                   g_gameStartTime = None\<rparr>,
        r_outs = []\<rparr>"
    by (simp add: resetGame_def failing_env_def example_env_def example_round_state)
  have tail: "run (r_state (run initial_gameState example_round))
        [Message observer failing_env (Json ResetGame), Connection alice example_env]
      = onMessage observer failing_env (Json ResetGame)
          (r_state (run initial_gameState example_round))"
    by (simp add: reset Let_def del: onMessage.simps)
  show ?thesis
    unfolding run_append [OF ok] tail
    by (simp add: reset del: onMessage.simps)
qed

section \<open>Unparseable messages\<close>

text \<open>
  Claim C2, at a failing input. The observer's first frame is unparseable. The parse
  error is not confined to the connection that sent the frame: the exception is uncaught,
  the run ends with it, and the events that follow, among them the player joining over
  another connection, are never handled. Without that frame the same events register
  the player.
\<close>

theorem malformed_message_ends_the_run:
  "run initial_gameState (Message observer example_env Malformed # example_joined)
     = \<lparr>r_thrown = Some SyntaxError, r_state = initial_gameState, r_outs = []\<rparr>
   \<and> map fst (g_players (r_state (run initial_gameState example_joined))) = [''alice'']"
  by (simp add: example_joined_state)

section \<open>The sender of a message\<close>

lemma rotate_playing:
  assumes "map_of (g_players s) k = Some p" and "p_status p = Playing"
  shows "map_of (g_players (r_state (handle_rotate e k t s))) k
         = Some (if arraysEqual (rotate_tile (p_puzzle p) t) correctRotation = Inr True
                 then p\<lparr>p_puzzle := rotate_tile (p_puzzle p) t, p_steps := p_steps p + 1,
                        p_status := Finished, p_finishTime := Some (now e 0),
                        p_time := elapsed (now e 0) (p_startTime p)\<rparr>
                 else p\<lparr>p_puzzle := rotate_tile (p_puzzle p) t, p_steps := p_steps p + 1\<rparr>)"
  using assms
  by (simp add: handle_rotate_def Let_def store_player_def update_conv'
      split: sum.splits bool.splits)

section \<open>Applying a rotation\<close>

lemma rotate_ignored_unknown:
  "map_of (g_players s) k = None \<Longrightarrow>
   handle_rotate e k t s = \<lparr>r_thrown = None, r_state = s, r_outs = []\<rparr>"
  by (simp add: handle_rotate_def)

lemma rotate_ignored_status:
  "map_of (g_players s) k = Some p \<Longrightarrow> p_status p \<noteq> Playing \<Longrightarrow>
   handle_rotate e k t s = \<lparr>r_thrown = None, r_state = s, r_outs = []\<rparr>"
  by (simp add: handle_rotate_def)

lemma puzzle_ok_cell:
  assumes "puzzle_ok a" and "i < 9"
  shows "\<exists>n<4. arr_get a i = Some (Num n)"
  using assms by (auto simp: puzzle_ok_iff arr_get_def)

lemma rotate_tile_cell:
  assumes "puzzle_ok a" and "i < 9" and "arr_get a i = Some (Num n)"
  shows "rotate_tile a (Index i) = a\<lparr>elems := (elems a)[i := Some (Num ((n + 1) mod 4))]\<rparr>"
  using assms by (simp add: puzzle_ok_iff arr_set_def)

lemma rotate_tile_ok:
  assumes "puzzle_ok a" and "i < 9"
  shows "puzzle_ok (rotate_tile a (Index i))"
proof -
  obtain n where n: "arr_get a i = Some (Num n)"
    using puzzle_ok_cell [OF assms] by blast
  show ?thesis
    unfolding rotate_tile_cell [OF assms n]
    using assms by (auto simp: puzzle_ok_iff nth_list_update)
qed

lemma arr_get_rotate_tile:
  assumes "puzzle_ok a" and "i < 9"
  shows "arr_get (rotate_tile a (Index i)) j
         = (if j = i then Some (next_rotation (arr_get a i)) else arr_get a j)"
proof -
  obtain n where n: "arr_get a i = Some (Num n)"
    using puzzle_ok_cell [OF assms] by blast
  from n assms have "elems a ! i = Some (Num n)"
    by (simp add: arr_get_def puzzle_ok_iff)
  then show ?thesis
    unfolding rotate_tile_cell [OF assms n]
    using assms by (simp add: arr_get_def puzzle_ok_iff)
qed

lemma rotate_accepted:
  assumes "map_of (g_players s) k = Some p" and "p_status p = Playing"
    and "puzzle_ok (p_puzzle p)" and "i < 9"
  shows "handle_rotate e k (Index i) s =
     (let a = rotate_tile (p_puzzle p) (Index i);
          p1 = p\<lparr>p_puzzle := a, p_steps := p_steps p + 1\<rparr>
      in if list_all (\<lambda>c. c = Some (Num 0)) (elems a) then
           let p2 = p1\<lparr>p_status := Finished, p_finishTime := Some (now e 0),
                      p_time := elapsed (now e 0) (p_startTime p)\<rparr>;
               s2 = store_player k p2 s;
               allFinished = list_all (\<lambda>kv. p_status (snd kv) = Finished) (g_players s2);
               s3 = (if allFinished then s2\<lparr>g_status := GameFinished\<rparr> else s2)
           in \<lparr>r_thrown = None, r_state = s3,
               r_outs = [Broadcast (PlayerFinished (p_id p) (p_name p)
                                      (elapsed (now e 0) (p_startTime p)) (p_steps p + 1))]
                        @ (if allFinished then [Broadcast GameEnd] else [])
                        @ [broadcastLeaderboard s3]\<rparr>
         else \<lparr>r_thrown = None, r_state = store_player k p1 s,
               r_outs = [broadcastLeaderboard (store_player k p1 s)]\<rparr>)"
proof -
  have "arraysEqual (rotate_tile (p_puzzle p) (Index i)) correctRotation
        = Inr (list_all (\<lambda>c. c = Some (Num 0)) (elems (rotate_tile (p_puzzle p) (Index i))))"
    by (rule arraysEqual_puzzle_ok [OF rotate_tile_ok [OF assms(3,4)]])
  then show ?thesis
    using assms(1,2) by (simp add: handle_rotate_def Let_def del: rotate_tile.simps)
qed

lemma players_store_player [simp]:
  "map_of (g_players (store_player k p s)) = (map_of (g_players s))(k \<mapsto> p)"
  by (simp add: store_player_def update_conv')

lemma status_store_player [simp]: "g_status (store_player k p s) = g_status s"
  by (simp add: store_player_def)

lemma example_alice:
  "map_of (g_players (r_state (run initial_gameState example_round))) ''alice'' = Some alice_playing"
  by (simp add: example_round_state alice_playing_def)

lemma alice_playing_ok: "p_status alice_playing = Playing \<and> puzzle_ok (p_puzzle alice_playing)"
  by (simp add: alice_playing_def example_puzzle puzzle_ok_def new_array_def)

lemma replicate_nine: "replicate 9 x = [x, x, x, x, x, x, x, x, x]"
  by (simp add: numeral_eq_Suc)

lemma example_solved:
  "rotate_tile (shufflePuzzle example_rnd) (Index 0) = correctRotation"
  by (simp add: example_puzzle new_array_def arr_set_def arr_get_def correctRotation_def
      replicate_nine)

lemma example_finish:
  "onMessage observer later_env (Json (Rotate ''alice'' (Index 0)))
     (r_state (run initial_gameState example_round)) =
     \<lparr>r_thrown = None,
      r_state = \<lparr>g_status = GameFinished, g_image = None, g_imageUrl = Some ''/uploads/a.png'',
                 g_players = [(''alice'', \<lparr>p_id = ''alice'', p_name = ''Alice'',
                                p_status = Finished, p_time = 3999, p_steps = 1,
                                p_startTime = Some 1001, p_finishTime = Some 5000,
                                p_puzzle = correctRotation\<rparr>)],
                 g_gameStartTime = Some 1000\<rparr>,
      r_outs = [Broadcast (PlayerFinished ''alice'' ''Alice'' 3999 1), Broadcast GameEnd,
                Broadcast (Leaderboard [\<lparr>e_id = ''alice'', e_name = ''Alice'',
                    e_status = Finished, e_time = 3999, e_steps = 1,
                    e_finishTime = Some 5000\<rparr>])]\<rparr>"
proof -
  have zero: "list_all (\<lambda>c. c = Some (Num 0)) (elems correctRotation)"
    by (simp add: correctRotation_def replicate_nine)
  have pos: "(0::nat) < 9" by simp
  have "onMessage observer later_env (Json (Rotate ''alice'' (Index 0)))
          (r_state (run initial_gameState example_round))
        = handle_rotate later_env ''alice'' (Index 0)
            (r_state (run initial_gameState example_round))"
    by simp
  also note rotate_accepted
    [OF example_alice conjunct1 [OF alice_playing_ok] conjunct2 [OF alice_playing_ok] pos,
     of later_env]
  finally show ?thesis
    using zero
    by (simp add: Let_def alice_playing_def example_solved example_round_state
        store_player_def later_env_def example_env_def elapsed_def broadcastLeaderboard_def
        leaderboard_def summary_def del: rotate_tile.simps onMessage.simps)
qed

section \<open>The shape of every puzzle\<close>

lemma list_all_update:
  "list_all P al \<Longrightarrow> P (k, v) \<Longrightarrow> list_all P (AList.update k v al)"
  by (induction al) auto

lemma list_all_delete: "list_all P al \<Longrightarrow> list_all P (AList.delete k al)"
  by (induction al) auto

lemma players_ok_store:
  "players_ok s \<Longrightarrow> puzzle_ok (p_puzzle p) \<Longrightarrow> players_ok (store_player k p s)"
  by (simp add: players_ok_def store_player_def list_all_update)

lemma players_ok_lookup:
  "players_ok s \<Longrightarrow> map_of (g_players s) k = Some p \<Longrightarrow> puzzle_ok (p_puzzle p)"
proof -
  assume ok: "players_ok s" and "map_of (g_players s) k = Some p"
  then have "(k, p) \<in> set (g_players s)"
    by (simp add: map_of_SomeD)
  with ok show ?thesis
    by (fastforce simp: players_ok_def list_all_iff)
qed

lemma reset_players_ok:
  "env_ok e \<Longrightarrow> list_all (\<lambda>kv. puzzle_ok (p_puzzle (snd kv))) (reset_players e k ps)"
  by (induction ps arbitrary: k) (simp_all add: env_ok_def shufflePuzzle_ok)

lemma players_ok_status [simp]: "players_ok (s\<lparr>g_status := st\<rparr>) = players_ok s"
  by (simp add: players_ok_def)

lemma players_ok_rotate:
  assumes "players_ok s" and "i < 9"
  shows "players_ok (r_state (handle_rotate e k (Index i) s))"
proof (cases "map_of (g_players s) k")
  case None
  with assms show ?thesis by (simp add: rotate_ignored_unknown)
next
  case (Some p)
  show ?thesis
  proof (cases "p_status p = Playing")
    case False
    with Some assms show ?thesis by (simp add: rotate_ignored_status)
  next
    case True
    have ok: "puzzle_ok (p_puzzle p)"
      using assms(1) Some by (rule players_ok_lookup)
    have ok': "puzzle_ok (rotate_tile (p_puzzle p) (Index i))"
      using ok assms(2) by (rule rotate_tile_ok)
    show ?thesis
      unfolding rotate_accepted [OF Some True ok assms(2)]
      using assms(1) ok'
      by (simp add: Let_def players_ok_store del: rotate_tile.simps)
  qed
qed

lemma players_ok_onMessage:
  assumes "players_ok s" and "event_ok (Message c e m)"
  shows "players_ok (r_state (onMessage c e m s))"
proof (cases m)
  case Malformed
  with assms show ?thesis by simp
next
  case JsonNull
  with assms show ?thesis by simp
next
  case (Json j)
  show ?thesis
  proof (cases j)
    case (UploadImage d f)
    with Json assms show ?thesis by (simp add: uploadImage_def players_ok_def Let_def)
  next
    case StartGame
    with Json assms show ?thesis
      by (simp add: startGame_def players_ok_def reset_players_ok Let_def)
  next
    case (Rotate k t)
    with Json assms obtain i where "t = Index i" and "i < 9"
      by (cases t) auto
    with Json Rotate assms show ?thesis
      by (simp add: players_ok_rotate del: rotate_tile.simps)
  next
    case ResetGame
    with Json show ?thesis by (simp add: resetGame_def players_ok_def Let_def)
  next
    case Unhandled
    with Json assms show ?thesis by simp
  qed
qed

lemma players_ok_step:
  assumes "players_ok s" and "event_ok ev"
  shows "players_ok (r_state (step ev s))"
proof (cases ev)
  case (Connection c e)
  with assms show ?thesis
    by (simp add: onConnection_def Let_def players_ok_store env_ok_def shufflePuzzle_ok)
next
  case (Message c e m)
  with assms show ?thesis by (simp add: players_ok_onMessage)
next
  case (Close c)
  with assms show ?thesis
    by (simp add: onClose_def Let_def players_ok_def list_all_delete)
qed

lemma players_ok_run:
  "players_ok s \<Longrightarrow> list_all event_ok evs \<Longrightarrow> players_ok (r_state (run s evs))"
  using run_invariant [where P = players_ok and Q = event_ok and s = s and evs = evs]
  by (simp add: players_ok_step)

lemma example_outside:
  "onMessage observer later_env (Json (Rotate ''alice'' (Index 9)))
     (r_state (run initial_gameState example_round)) =
     \<lparr>r_thrown = None,
      r_state = \<lparr>g_status = GamePlaying, g_image = None, g_imageUrl = Some ''/uploads/a.png'',
                 g_players = [(''alice'', \<lparr>p_id = ''alice'', p_name = ''Alice'',
                                p_status = Playing, p_time = 0, p_steps = 1,
                                p_startTime = Some 1001, p_finishTime = None,
                                p_puzzle = \<lparr>elems = [Some (Num 3), Some (Num 0), Some (Num 0),
                                   Some (Num 0), Some (Num 0), Some (Num 0), Some (Num 0),
                                   Some (Num 0), Some (Num 0), Some NaN],
                                   every_own = False\<rparr>\<rparr>)],
                 g_gameStartTime = Some 1000\<rparr>,
      r_outs = [Broadcast (Leaderboard [\<lparr>e_id = ''alice'', e_name = ''Alice'',
                    e_status = Playing, e_time = 0, e_steps = 1, e_finishTime = None\<rparr>])]\<rparr>"
  by (simp add: example_round_state example_puzzle handle_rotate_def arraysEqual_def every_def
      new_array_def arr_get_def arr_set_def correctRotation_def replicate_nine store_player_def
      broadcastLeaderboard_def leaderboard_def summary_def Let_def upt_rec)

lemma run_snoc:
  "r_thrown (run s evs) = None \<Longrightarrow>
   r_state (run s (evs @ [ev])) = r_state (step ev (r_state (run s evs)))"
  by (induction evs arbitrary: s) (auto simp: Let_def split: option.splits)

text \<open>
  Claim C1, at a failing input. A rotate message whose tile index is 9 does not address
  one of the nine cells, and is not ignored. Sent in a running round for a player whose
  status is Playing, it counts a step, extends the puzzle to ten elements of which the
  last is not a number, and makes the server broadcast the leaderboard: the state has
  changed, and a registered player's puzzle no longer has nine elements in 0..3.
\<close>

theorem rotate_outside_grid_changes_puzzle:
  "map (\<lambda>kv. (p_steps (snd kv), elems (p_puzzle (snd kv))))
       (g_players (r_state (run initial_gameState
          (example_round @ [Message observer later_env (Json (Rotate ''alice'' (Index 9)))]))))
     = [(1, [Some (Num 3), Some (Num 0), Some (Num 0), Some (Num 0), Some (Num 0),
             Some (Num 0), Some (Num 0), Some (Num 0), Some (Num 0), Some NaN])]
   \<and> r_outs (onMessage observer later_env (Json (Rotate ''alice'' (Index 9)))
        (r_state (run initial_gameState example_round)))
       = [Broadcast (Leaderboard [\<lparr>e_id = ''alice'', e_name = ''Alice'', e_status = Playing,
              e_time = 0, e_steps = 1, e_finishTime = None\<rparr>])]"
proof -
  have "r_thrown (run initial_gameState example_round) = None"
    by (simp add: example_round_state)
  from run_snoc [OF this]
  have "r_state (run initial_gameState
          (example_round @ [Message observer later_env (Json (Rotate ''alice'' (Index 9)))]))
        = r_state (onMessage observer later_env (Json (Rotate ''alice'' (Index 9)))
            (r_state (run initial_gameState example_round)))"
    by (simp del: onMessage.simps)
  then show ?thesis
    by (simp add: example_outside del: onMessage.simps)
qed

section \<open>How a player's status moves\<close>

lemma rotate_other:
  "k \<noteq> k' \<Longrightarrow>
   map_of (g_players (r_state (handle_rotate e k' t s))) k = map_of (g_players s) k"
  by (simp add: handle_rotate_def Let_def split: option.splits sum.splits bool.splits)

lemma rotate_status:
  assumes "map_of (g_players (r_state (handle_rotate e k' t s))) k = Some p'"
  shows "\<exists>p. map_of (g_players s) k = Some p \<and> advances (p_status p) (p_status p')"
proof (cases "k = k'")
  case False
  with assms show ?thesis by (simp add: rotate_other advances_def)
next
  case True
  show ?thesis
  proof (cases "map_of (g_players s) k")
    case None
    with assms True show ?thesis by (simp add: rotate_ignored_unknown)
  next
    case (Some p)
    show ?thesis
    proof (cases "p_status p = Playing")
      case False
      with Some assms True show ?thesis
        by (simp add: rotate_ignored_status advances_def)
    next
      case Playing: True
      from assms True rotate_playing [OF Some Playing, of e t] Some Playing show ?thesis
        by (auto simp: advances_def split: if_splits)
    qed
  qed
qed

lemma players_resetGame [simp]: "g_players (r_state (resetGame e s)) = []"
  by (simp add: resetGame_def Let_def)

lemma step_status:
  assumes "keeps_order k ev" and "map_of (g_players (r_state (step ev s))) k = Some p'"
  shows "\<exists>p. map_of (g_players s) k = Some p \<and> advances (p_status p) (p_status p')"
proof (cases ev)
  case (Connection c e)
  with assms show ?thesis
    by (auto simp: onConnection_def Let_def advances_def split: if_splits)
next
  case (Close c)
  with assms show ?thesis
    by (auto simp: onClose_def Let_def advances_def delete_conv' split: if_splits)
next
  case (Message c e m)
  show ?thesis
  proof (cases m)
    case Malformed
    with Message assms show ?thesis by (simp add: advances_def)
  next
    case JsonNull
    with Message assms show ?thesis by (simp add: advances_def)
  next
    case (Json j)
    show ?thesis
    proof (cases j)
      case (UploadImage d f)
      with Json Message assms show ?thesis by (simp add: uploadImage_def Let_def advances_def)
    next
      case StartGame
      with Json Message assms show ?thesis by simp
    next
      case (Rotate k' t)
      with Json Message assms show ?thesis by (simp add: rotate_status)
    next
      case ResetGame
      with Json Message assms show ?thesis by simp
    next
      case Unhandled
      with Json Message assms show ?thesis by (simp add: advances_def)
    qed
  qed
qed

lemma advances_trans: "advances a b \<Longrightarrow> advances b c \<Longrightarrow> advances a c"
  by (auto simp: advances_def)

lemma run_status:
  assumes "list_all (keeps_order k) evs"
    and "map_of (g_players (r_state (run s evs))) k = Some p'"
  shows "\<exists>p. map_of (g_players s) k = Some p \<and> advances (p_status p) (p_status p')"
  using assms
proof (induction evs arbitrary: s)
  case Nil
  then show ?case by (simp add: advances_def)
next
  case (Cons ev evs)
  have ev: "keeps_order k ev" and evs: "list_all (keeps_order k) evs"
    using Cons.prems(1) by simp_all
  have "\<exists>p1. map_of (g_players (r_state (step ev s))) k = Some p1
           \<and> advances (p_status p1) (p_status p')"
  proof (cases "r_thrown (step ev s)")
    case None
    with Cons.prems(2) have "map_of (g_players (r_state (run (r_state (step ev s)) evs))) k = Some p'"
      by (simp add: Let_def)
    from Cons.IH [OF evs this] show ?thesis .
  next
    case (Some err)
    with Cons.prems(2) show ?thesis by (simp add: Let_def advances_def)
  qed
  then obtain p1 where p1: "map_of (g_players (r_state (step ev s))) k = Some p1"
    and adv: "advances (p_status p1) (p_status p')" by blast
  from step_status [OF ev p1] obtain p where "map_of (g_players s) k = Some p"
    and "advances (p_status p) (p_status p1)" by blast
  with adv show ?case by (blast intro: advances_trans)
qed

lemma map_of_reset_players:
  "map_of ps k = Some p \<Longrightarrow>
   \<exists>p'. map_of (reset_players e n ps) k = Some p' \<and> p_status p' = Playing"
  by (induction ps arbitrary: n) (auto split: if_splits)

lemma run_snoc_thrown:
  "r_thrown (run s evs) = None \<Longrightarrow>
   r_thrown (run s (evs @ [ev])) = r_thrown (step ev (r_state (run s evs)))"
  by (induction evs arbitrary: s) (auto simp: Let_def split: option.splits)

lemma finished_round_state:
  "r_thrown (run initial_gameState finished_round) = None
   \<and> r_state (run initial_gameState finished_round)
      = \<lparr>g_status = GameFinished, g_image = None, g_imageUrl = Some ''/uploads/a.png'',
         g_players = [(''alice'', \<lparr>p_id = ''alice'', p_name = ''Alice'',
                        p_status = Finished, p_time = 3999, p_steps = 1,
                        p_startTime = Some 1001, p_finishTime = Some 5000,
                        p_puzzle = correctRotation\<rparr>)],
         g_gameStartTime = Some 1000\<rparr>"
proof -
  have ok: "r_thrown (run initial_gameState example_round) = None"
    by (simp add: example_round_state)
  show ?thesis
    unfolding finished_round_def run_snoc [OF ok] run_snoc_thrown [OF ok]
    by (simp add: example_finish del: onMessage.simps)
qed

text \<open>
  Claim C3, as stated, fails: a start-round request moves a Finished player back to
  Playing. Here the only player completes the puzzle and is Finished; the next start-round
  request leaves the same player registered with status Playing.
\<close>

theorem start_round_returns_finished_player_to_playing:
  "map (\<lambda>kv. (fst kv, p_status (snd kv)))
       (g_players (r_state (run initial_gameState finished_round)))
     = [(''alice'', Finished)]
   \<and> map (\<lambda>kv. (fst kv, p_status (snd kv)))
       (g_players (r_state (run initial_gameState
          (finished_round @ [Message observer later_env (Json StartGame)]))))
     = [(''alice'', Playing)]"
  unfolding run_snoc [OF conjunct1 [OF finished_round_state]]
  by (simp add: finished_round_state startGame_def truthy_def Let_def)

text \<open>
  Claim C3, amended. Along every sequence of events that contains no start-round request
  (and no connection that reuses the player's identity), a player that is registered at
  the end was registered at the beginning, and its status is the same or has moved from
  Playing to Finished: it never regresses in the order Joined, Playing, Finished. A
  start-round request with an image published sets every registered player, whatever its
  status, to Playing; a reset discards every player.
\<close>

theorem status_never_regresses_without_start:
  "(list_all (keeps_order k) evs \<and> map_of (g_players (r_state (run s evs))) k = Some p' \<longrightarrow>
      (\<exists>p. map_of (g_players s) k = Some p
          \<and> (p_status p' = p_status p \<or> (p_status p = Playing \<and> p_status p' = Finished))
          \<and> status_rank (p_status p) \<le> status_rank (p_status p')))
   \<and> (truthy (g_imageUrl s) \<and> map_of (g_players s) k = Some q \<longrightarrow>
        (\<exists>q'. map_of (g_players (r_state (onMessage c e (Json StartGame) s))) k = Some q'
             \<and> p_status q' = Playing))
   \<and> g_players (r_state (onMessage c e (Json ResetGame) s)) = []"
proof -
  have rank: "status_rank a \<le> status_rank b" if "advances a b" for a b
    using that by (auto simp: advances_def)
  have along: "\<exists>p. map_of (g_players s) k = Some p
          \<and> (p_status p' = p_status p \<or> (p_status p = Playing \<and> p_status p' = Finished))
          \<and> status_rank (p_status p) \<le> status_rank (p_status p')"
    if "list_all (keeps_order k) evs" and "map_of (g_players (r_state (run s evs))) k = Some p'"
  proof -
    from run_status [OF that] obtain p where p: "map_of (g_players s) k = Some p"
      and adv: "advances (p_status p) (p_status p')" by blast
    from adv have "p_status p' = p_status p \<or> (p_status p = Playing \<and> p_status p' = Finished)"
      by (simp add: advances_def)
    with p rank [OF adv] show ?thesis by blast
  qed
  have start: "\<exists>q'. map_of (g_players (r_state (onMessage c e (Json StartGame) s))) k = Some q'
             \<and> p_status q' = Playing"
    if "truthy (g_imageUrl s)" and "map_of (g_players s) k = Some q"
    using that map_of_reset_players [of "g_players s" k q e 0]
    by (simp add: startGame_def Let_def)
  from along start show ?thesis by simp
qed

theorem status_never_regresses_without_start_witness:
  "list_all (keeps_order ''alice'') [Message observer later_env (Json (Rotate ''alice'' (Index 0)))]
   \<and> map_of (g_players (r_state (run (r_state (run initial_gameState example_round))
          [Message observer later_env (Json (Rotate ''alice'' (Index 0)))]))) ''alice''
       = Some alice_finished
   \<and> map_of (g_players (r_state (run initial_gameState example_round))) ''alice''
       = Some alice_playing
   \<and> status_rank (p_status alice_playing) \<le> status_rank (p_status alice_finished)
   \<and> truthy (g_imageUrl (r_state (run initial_gameState example_round)))
   \<and> (\<exists>q'. map_of (g_players (r_state (onMessage observer later_env (Json StartGame)
          (r_state (run initial_gameState example_round))))) ''alice'' = Some q'
        \<and> p_status q' = Playing)"
proof -
  have evs: "list_all (keeps_order ''alice'')
      [Message observer later_env (Json (Rotate ''alice'' (Index 0)))]"
    by simp
  have "run (r_state (run initial_gameState example_round))
          [Message observer later_env (Json (Rotate ''alice'' (Index 0)))]
        = onMessage observer later_env (Json (Rotate ''alice'' (Index 0)))
            (r_state (run initial_gameState example_round))"
    by (simp add: example_finish Let_def del: onMessage.simps)
  then have final: "map_of (g_players (r_state (run (r_state (run initial_gameState example_round))
          [Message observer later_env (Json (Rotate ''alice'' (Index 0)))]))) ''alice''
       = Some alice_finished"
    by (simp add: example_finish alice_finished_def del: onMessage.simps run.simps)
  have url: "truthy (g_imageUrl (r_state (run initial_gameState example_round)))"
    by (simp add: example_round_state truthy_def)
  show ?thesis
    using evs final url example_alice
      status_never_regresses_without_start
        [of "''alice''" "[Message observer later_env (Json (Rotate ''alice'' (Index 0)))]"
            "r_state (run initial_gameState example_round)" alice_finished alice_playing
            observer later_env]
    by (simp del: onMessage.simps run.simps)
qed

section \<open>Rotation histories\<close>

lemma rotation_msg_ok: "rotation_msg ev \<Longrightarrow> event_ok ev"
  by (cases ev rule: rotation_msg.cases) simp_all

lemma rotation_step:
  assumes "players_ok s" and "map_of (g_players s) k = Some p" and "rotation_msg ev"
  shows "r_thrown (step ev s) = None
       \<and> (\<exists>p'. map_of (g_players (r_state (step ev s))) k = Some p'
             \<and> p_steps p' = p_steps p + (if rotates k (\<lambda>j. True) ev \<and> is_playing s k then 1 else 0)
             \<and> (\<forall>i<9. arr_get (p_puzzle p') i
                   = turned (if rotates k (\<lambda>j. j = i) ev \<and> is_playing s k then 1 else 0)
                       (arr_get (p_puzzle p) i)))"
proof -
  from assms(3) obtain c e k' j where ev: "ev = Message c e (Json (Rotate k' (Index j)))"
    and j: "j < 9"
    by (cases ev rule: rotation_msg.cases) auto
  have ok: "puzzle_ok (p_puzzle p)"
    using assms(1,2) by (rule players_ok_lookup)
  have same: "\<forall>i<9. arr_get (p_puzzle p) i = turned 0 (arr_get (p_puzzle p) i)"
  proof (intro allI impI)
    fix i :: nat assume "i < 9"
    from puzzle_ok_cell [OF ok this] show "arr_get (p_puzzle p) i = turned 0 (arr_get (p_puzzle p) i)"
      by auto
  qed
  have thrown: "r_thrown (handle_rotate e k' (Index j) s) = None"
  proof (cases "map_of (g_players s) k'")
    case None
    then show ?thesis by (simp add: rotate_ignored_unknown)
  next
    case (Some q)
    show ?thesis
    proof (cases "p_status q = Playing")
      case False
      with Some show ?thesis by (simp add: rotate_ignored_status)
    next
      case True
      have "puzzle_ok (p_puzzle q)"
        using assms(1) Some by (rule players_ok_lookup)
      from rotate_accepted [OF Some True this j, of e] show ?thesis
        by (simp add: Let_def del: rotate_tile.simps)
    qed
  qed
  show ?thesis
  proof (cases "k' = k \<and> p_status p = Playing")
    case False
    have unchanged: "map_of (g_players (r_state (handle_rotate e k' (Index j) s))) k = Some p"
    proof (cases "k' = k")
      case True
      with False have "p_status p \<noteq> Playing" by simp
      with True assms(2) show ?thesis
        by (simp add: rotate_ignored_status [where p = p] del: rotate_tile.simps)
    next
      case False
      then have "k \<noteq> k'" by simp
      with assms(2) show ?thesis by (simp add: rotate_other del: rotate_tile.simps)
    qed
    from False assms(2) have "\<not> (k' = k \<and> is_playing s k)"
      by (auto simp: is_playing_def)
    with unchanged thrown same show ?thesis
      by (auto simp: ev simp del: rotate_tile.simps)
  next
    case True
    then have k: "k' = k" and playing: "p_status p = Playing" by simp_all
    have cells: "arr_get (rotate_tile (p_puzzle p) (Index j)) i
          = turned (if j = i then 1 else 0) (arr_get (p_puzzle p) i)" if "i < 9" for i
      using puzzle_ok_cell [OF ok that] puzzle_ok_cell [OF ok j]
      by (auto simp: arr_get_rotate_tile [OF ok j] simp del: rotate_tile.simps)
    from assms(2) playing have act: "is_playing s k"
      by (simp add: is_playing_def)
    from rotate_playing [OF assms(2) playing, of e "Index j"] thrown act cells show ?thesis
      by (auto simp: ev k simp del: rotate_tile.simps)
  qed
qed

lemma turned_turned: "turned a (turned b c) = turned (b + a) c"
  by (cases "(b, c)" rule: turned.cases) (simp_all add: mod_add_left_eq add.assoc)

lemma rotation_history:
  assumes "list_all rotation_msg evs" and "players_ok s" and "map_of (g_players s) k = Some p"
  shows "r_thrown (run s evs) = None
       \<and> (\<exists>p'. map_of (g_players (r_state (run s evs))) k = Some p'
             \<and> p_steps p' = p_steps p + accepted k (\<lambda>j. True) s evs
             \<and> (\<forall>i<9. arr_get (p_puzzle p') i
                   = turned (accepted k (\<lambda>j. j = i) s evs) (arr_get (p_puzzle p) i)))"
  using assms
proof (induction evs arbitrary: s p)
  case Nil
  have "puzzle_ok (p_puzzle p)"
    using Nil.prems(2,3) by (rule players_ok_lookup)
  then have "\<forall>i<9. arr_get (p_puzzle p) i = turned 0 (arr_get (p_puzzle p) i)"
    using puzzle_ok_cell by fastforce
  with Nil show ?case by simp
next
  case (Cons ev evs)
  have ev: "rotation_msg ev" and evs: "list_all rotation_msg evs"
    using Cons.prems(1) by simp_all
  let ?s1 = "r_state (step ev s)"
  from rotation_step [OF Cons.prems(2,3) ev]
  obtain p1 where thrown: "r_thrown (step ev s) = None"
    and p1: "map_of (g_players ?s1) k = Some p1"
    and steps1: "p_steps p1 = p_steps p + (if rotates k (\<lambda>j. True) ev \<and> is_playing s k then 1 else 0)"
    and cells1: "\<forall>i<9. arr_get (p_puzzle p1) i
                   = turned (if rotates k (\<lambda>j. j = i) ev \<and> is_playing s k then 1 else 0)
                       (arr_get (p_puzzle p) i)"
    by blast
  have ok1: "players_ok ?s1"
    using Cons.prems(2) rotation_msg_ok [OF ev] by (rule players_ok_step)
  from Cons.IH [OF evs ok1 p1]
  obtain p' where thrown': "r_thrown (run ?s1 evs) = None"
    and p': "map_of (g_players (r_state (run ?s1 evs))) k = Some p'"
    and steps': "p_steps p' = p_steps p1 + accepted k (\<lambda>j. True) ?s1 evs"
    and cells': "\<forall>i<9. arr_get (p_puzzle p') i
                   = turned (accepted k (\<lambda>j. j = i) ?s1 evs) (arr_get (p_puzzle p1) i)"
    by blast
  have run: "run s (ev # evs) = (run ?s1 evs)\<lparr>r_outs := r_outs (step ev s) @ r_outs (run ?s1 evs)\<rparr>"
    using thrown by (simp add: Let_def)
  have "\<forall>i<9. arr_get (p_puzzle p') i
          = turned (accepted k (\<lambda>j. j = i) s (ev # evs)) (arr_get (p_puzzle p) i)"
    using cells1 cells' by (simp add: turned_turned)
  with thrown' p' steps' steps1 show ?case
    unfolding run by simp
qed

lemma example_players_ok: "players_ok (r_state (run initial_gameState example_round))"
  by (simp add: example_round_state players_ok_def example_puzzle puzzle_ok_def new_array_def)

lemma example_cell: "arr_get (p_puzzle alice_playing) 0 = Some (Num 3)"
  by (simp add: alice_playing_def example_puzzle arr_get_def)

lemma example_accepted:
  "accepted ''alice'' P (r_state (run initial_gameState example_round))
     [Message observer later_env (Json (Rotate ''alice'' (Index 0)))] = (if P 0 then 1 else 0)"
  by (simp add: is_playing_def example_alice alice_playing_ok del: onMessage.simps)

text \<open>
  Claim C4, as stated, fails: a cell does not equal the count of accepted rotations on it
  modulo 4, because a round starts from a shuffled puzzle. In the running round of the
  example no rotation has been accepted on cell 0 of the player, and the cell is 3.
\<close>

theorem cell_differs_from_rotation_count:
  "accepted ''alice'' (\<lambda>j. j = 0) initial_gameState example_round = 0
   \<and> map (\<lambda>kv. arr_get (p_puzzle (snd kv)) 0)
       (g_players (r_state (run initial_gameState example_round))) = [Some (Num 3)]"
proof -
  have "accepted ''alice'' (\<lambda>j. j = 0) initial_gameState example_round = 0"
    by (simp add: example_round_def example_joined_def)
  then show ?thesis
    by (simp add: example_round_state example_puzzle arr_get_def)
qed

text \<open>
  Claim C4, amended. Take any history of rotate messages, for any players, each of which
  addresses one of the nine puzzle cells, applied from a state in which every registered
  player's puzzle has nine cells in 0..3. Every handler returns normally, and every cell of
  a registered player is still in 0..3 and equals its value before the history plus the
  count of accepted rotations on that cell (those that arrive while the player's status is
  Playing), modulo 4; the step count grows by the count of accepted rotations of the
  player. Each accepted rotation advances the addressed cell by one step modulo 4
  (0, 1, 2, 3, 0) and increments the step count by 1.
\<close>

theorem rotation_history_counts:
  assumes "list_all rotation_msg evs" and "players_ok s" and "map_of (g_players s) k = Some p"
    and "i < 9"
  shows "\<exists>n p'. n < 4 \<and> arr_get (p_puzzle p) i = Some (Num n)
       \<and> r_thrown (run s evs) = None
       \<and> map_of (g_players (r_state (run s evs))) k = Some p'
       \<and> puzzle_ok (p_puzzle p')
       \<and> arr_get (p_puzzle p') i = Some (Num ((n + accepted k (\<lambda>j. j = i) s evs) mod 4))
       \<and> p_steps p' = p_steps p + accepted k (\<lambda>j. True) s evs
       \<and> (p_status p = Playing \<longrightarrow>
            (\<exists>p1. map_of (g_players (r_state (onMessage c e (Json (Rotate k (Index i))) s))) k
                     = Some p1
                 \<and> arr_get (p_puzzle p1) i = Some (Num ((n + 1) mod 4))
                 \<and> p_steps p1 = p_steps p + 1))"
proof -
  have ok: "puzzle_ok (p_puzzle p)"
    using assms(2,3) by (rule players_ok_lookup)
  from puzzle_ok_cell [OF ok assms(4)]
  obtain n where n: "n < 4" and cell: "arr_get (p_puzzle p) i = Some (Num n)" by blast
  from rotation_history [OF assms(1-3)]
  obtain p' where thrown: "r_thrown (run s evs) = None"
    and p': "map_of (g_players (r_state (run s evs))) k = Some p'"
    and steps: "p_steps p' = p_steps p + accepted k (\<lambda>j. True) s evs"
    and cells: "\<forall>i<9. arr_get (p_puzzle p') i
                   = turned (accepted k (\<lambda>j. j = i) s evs) (arr_get (p_puzzle p) i)"
    by blast
  have "players_ok (r_state (run s evs))"
    using assms(2) by (rule players_ok_run) (use assms(1) in \<open>simp add: list_all_iff rotation_msg_ok\<close>)
  then have ok': "puzzle_ok (p_puzzle p')"
    using p' by (rule players_ok_lookup)
  have cell': "arr_get (p_puzzle p') i = Some (Num ((n + accepted k (\<lambda>j. j = i) s evs) mod 4))"
    using cells assms(4) cell by simp
  have one: "\<exists>p1. map_of (g_players (r_state (onMessage c e (Json (Rotate k (Index i))) s))) k
                     = Some p1
                 \<and> arr_get (p_puzzle p1) i = Some (Num ((n + 1) mod 4))
                 \<and> p_steps p1 = p_steps p + 1"
    if playing: "p_status p = Playing"
    using rotate_playing [OF assms(3) playing, of e "Index i"]
      arr_get_rotate_tile [OF ok assms(4), of i] cell
    by (auto simp del: rotate_tile.simps)
  from n cell thrown p' ok' cell' steps one show ?thesis by blast
qed

theorem rotation_history_counts_witness:
  "list_all rotation_msg [Message observer later_env (Json (Rotate ''alice'' (Index 0)))]
   \<and> players_ok (r_state (run initial_gameState example_round))
   \<and> map_of (g_players (r_state (run initial_gameState example_round))) ''alice''
       = Some alice_playing
   \<and> arr_get (p_puzzle alice_playing) 0 = Some (Num 3)
   \<and> accepted ''alice'' (\<lambda>j. j = 0) (r_state (run initial_gameState example_round))
        [Message observer later_env (Json (Rotate ''alice'' (Index 0)))] = 1
   \<and> (\<exists>p'. map_of (g_players (r_state (run (r_state (run initial_gameState example_round))
          [Message observer later_env (Json (Rotate ''alice'' (Index 0)))]))) ''alice'' = Some p'
        \<and> arr_get (p_puzzle p') 0 = Some (Num 0) \<and> p_steps p' = 1)"
proof -
  have evs: "list_all rotation_msg [Message observer later_env (Json (Rotate ''alice'' (Index 0)))]"
    by simp
  have pos: "(0::nat) < 9" by simp
  have zero: "p_steps alice_playing = 0"
    by (simp add: alice_playing_def)
  from rotation_history_counts [OF evs example_players_ok example_alice pos, of observer later_env]
  show ?thesis
    using evs example_players_ok example_alice example_cell zero
    by (auto simp: example_accepted simp del: onMessage.simps run.simps accepted.simps)
qed

section \<open>Completion after a rotation outside the grid\<close>

lemma outside_round_state:
  "r_thrown (run initial_gameState outside_round) = None
   \<and> r_state (run initial_gameState outside_round)
      = \<lparr>g_status = GamePlaying, g_image = None, g_imageUrl = Some ''/uploads/a.png'',
         g_players = [(''alice'', \<lparr>p_id = ''alice'', p_name = ''Alice'',
                        p_status = Playing, p_time = 0, p_steps = 1,
                        p_startTime = Some 1001, p_finishTime = None,
                        p_puzzle = \<lparr>elems = [Some (Num 3), Some (Num 0), Some (Num 0),
                           Some (Num 0), Some (Num 0), Some (Num 0), Some (Num 0),
                           Some (Num 0), Some (Num 0), Some NaN],
                           every_own = False\<rparr>\<rparr>)],
         g_gameStartTime = Some 1000\<rparr>"
proof -
  have ok: "r_thrown (run initial_gameState example_round) = None"
    by (simp add: example_round_state)
  show ?thesis
    unfolding outside_round_def run_snoc [OF ok] run_snoc_thrown [OF ok]
    by (simp add: example_outside del: onMessage.simps)
qed

lemma example_unfinished:
  "onMessage observer later_env (Json (Rotate ''alice'' (Index 0)))
     (r_state (run initial_gameState outside_round)) =
     \<lparr>r_thrown = None,
      r_state = \<lparr>g_status = GamePlaying, g_image = None, g_imageUrl = Some ''/uploads/a.png'',
                 g_players = [(''alice'', \<lparr>p_id = ''alice'', p_name = ''Alice'',
                                p_status = Playing, p_time = 0, p_steps = 2,
                                p_startTime = Some 1001, p_finishTime = None,
                                p_puzzle = \<lparr>elems = [Some (Num 0), Some (Num 0), Some (Num 0),
                                   Some (Num 0), Some (Num 0), Some (Num 0), Some (Num 0),
                                   Some (Num 0), Some (Num 0), Some NaN],
                                   every_own = False\<rparr>\<rparr>)],
                 g_gameStartTime = Some 1000\<rparr>,
      r_outs = [Broadcast (Leaderboard [\<lparr>e_id = ''alice'', e_name = ''Alice'',
                    e_status = Playing, e_time = 0, e_steps = 2, e_finishTime = None\<rparr>])]\<rparr>"
  by (simp add: outside_round_state handle_rotate_def arraysEqual_def every_def
      arr_get_def arr_set_def correctRotation_def new_array_def replicate_nine store_player_def
      broadcastLeaderboard_def leaderboard_def summary_def Let_def upt_rec)

text \<open>
  Claim C5, at a failing input. In the running round of the example the player's puzzle
  is 3, 0, ..., 0. A rotate message with tile index 9 arrives first, then a rotation of
  cell 0, which is accepted: the player is registered with status Playing and the index
  addresses a cell. After it every one of the nine cells 0..8 equals 0, and the player
  has not reached Finished: its status is still Playing, no finish time is set, and the
  only message sent is the leaderboard, with no player-finished and no game-end
  broadcast.
\<close>

theorem completion_missed_after_rotate_outside_grid:
  "map (\<lambda>kv. (p_status (snd kv), p_finishTime (snd kv), elems (p_puzzle (snd kv))))
       (g_players (r_state (run initial_gameState
          (outside_round @ [Message observer later_env (Json (Rotate ''alice'' (Index 0)))]))))
     = [(Playing, None,
         [Some (Num 0), Some (Num 0), Some (Num 0), Some (Num 0), Some (Num 0),
          Some (Num 0), Some (Num 0), Some (Num 0), Some (Num 0), Some NaN])]
   \<and> r_outs (onMessage observer later_env (Json (Rotate ''alice'' (Index 0)))
        (r_state (run initial_gameState outside_round)))
       = [Broadcast (Leaderboard [\<lparr>e_id = ''alice'', e_name = ''Alice'', e_status = Playing,
              e_time = 0, e_steps = 2, e_finishTime = None\<rparr>])]"
proof -
  have "r_state (run initial_gameState
          (outside_round @ [Message observer later_env (Json (Rotate ''alice'' (Index 0)))]))
        = r_state (onMessage observer later_env (Json (Rotate ''alice'' (Index 0)))
            (r_state (run initial_gameState outside_round)))"
    using run_snoc [OF conjunct1 [OF outside_round_state]]
    by (simp del: onMessage.simps)
  then show ?thesis
    by (simp add: example_unfinished del: onMessage.simps)
qed

section \<open>Any connection can act on any player\<close>

lemma rotate_tile_addressed:
  "i < 9 \<Longrightarrow> arr_get (rotate_tile a (Index i)) i = Some (next_rotation (arr_get a i))"
  by (simp add: arr_get_def arr_set_def nth_append)

lemma next_step_differs: "(n + 1) mod 4 \<noteq> (n::nat)"
  by presburger

text \<open>
  Claim C10. What a message does to the session, and what it makes the server send, does
  not depend on the connection it arrived on: the handler gives the same outcome for any
  two connections. In particular a rotate message acts on the player named inside the
  message. Sent over any connection, also one that is not a player or that belongs to
  another player, it replaces the puzzle of any registered player whose status is Playing
  by the rotated one and counts a step for that player; when it addresses one of the nine
  cells and the cell holds the number n, the cell holds (n + 1) mod 4 afterwards, which is
  a different value, so the player's puzzle has changed. Likewise a start-round request
  over any connection, once an image is published, puts the session in status Playing,
  and a reset request over any connection empties the registry and returns the session to
  Waiting.
\<close>

theorem message_effect_independent_of_sender:
  "onMessage c1 e m s = onMessage c2 e m s
   \<and> (map_of (g_players s) k = Some p \<and> p_status p = Playing \<longrightarrow>
        (\<exists>p'. map_of (g_players (r_state (onMessage c1 e (Json (Rotate k t)) s))) k = Some p'
            \<and> p_puzzle p' = rotate_tile (p_puzzle p) t \<and> p_steps p' = p_steps p + 1))
   \<and> (map_of (g_players s) k = Some p \<and> p_status p = Playing \<and> i < 9
        \<and> arr_get (p_puzzle p) i = Some (Num n) \<longrightarrow>
        (\<exists>p'. map_of (g_players (r_state (onMessage c1 e (Json (Rotate k (Index i))) s))) k
                 = Some p'
            \<and> arr_get (p_puzzle p') i = Some (Num ((n + 1) mod 4))
            \<and> arr_get (p_puzzle p') i \<noteq> arr_get (p_puzzle p) i
            \<and> p_puzzle p' \<noteq> p_puzzle p
            \<and> p_steps p' = p_steps p + 1))
   \<and> (truthy (g_imageUrl s) \<longrightarrow>
        g_status (r_state (onMessage c1 e (Json StartGame) s)) = GamePlaying
      \<and> g_gameStartTime (r_state (onMessage c1 e (Json StartGame) s)) = Some (now e 0))
   \<and> g_players (r_state (onMessage c1 e (Json ResetGame) s)) = []
   \<and> g_status (r_state (onMessage c1 e (Json ResetGame) s)) = Waiting"
proof -
  have same: "onMessage c1 e m s = onMessage c2 e m s"
    by (cases "(c1, e, m, s)" rule: onMessage.cases) simp_all
  have acts: "\<exists>p'. map_of (g_players (r_state (onMessage c1 e (Json (Rotate k t)) s))) k = Some p'
            \<and> p_puzzle p' = rotate_tile (p_puzzle p) t \<and> p_steps p' = p_steps p + 1"
    if "map_of (g_players s) k = Some p" and "p_status p = Playing" for t
    using rotate_playing [OF that, of e t] by simp
  have turns: "\<exists>p'. map_of (g_players (r_state (onMessage c1 e (Json (Rotate k (Index i))) s))) k
                 = Some p'
            \<and> arr_get (p_puzzle p') i = Some (Num ((n + 1) mod 4))
            \<and> arr_get (p_puzzle p') i \<noteq> arr_get (p_puzzle p) i
            \<and> p_puzzle p' \<noteq> p_puzzle p
            \<and> p_steps p' = p_steps p + 1"
    if reg: "map_of (g_players s) k = Some p" and playing: "p_status p = Playing"
      and i: "i < 9" and cell: "arr_get (p_puzzle p) i = Some (Num n)"
  proof -
    from acts [OF reg playing, of "Index i"]
    obtain p' where p': "map_of (g_players (r_state (onMessage c1 e (Json (Rotate k (Index i))) s))) k
                 = Some p'"
      and puzzle: "p_puzzle p' = rotate_tile (p_puzzle p) (Index i)"
      and steps: "p_steps p' = p_steps p + 1"
      by blast
    have new: "arr_get (p_puzzle p') i = Some (Num ((n + 1) mod 4))"
      unfolding puzzle rotate_tile_addressed [OF i] by (simp add: cell)
    with cell next_step_differs [of n]
    have differs: "arr_get (p_puzzle p') i \<noteq> arr_get (p_puzzle p) i"
      by simp
    then have "p_puzzle p' \<noteq> p_puzzle p"
      by auto
    with p' new differs steps show ?thesis by blast
  qed
  have start: "g_status (r_state (onMessage c1 e (Json StartGame) s)) = GamePlaying
      \<and> g_gameStartTime (r_state (onMessage c1 e (Json StartGame) s)) = Some (now e 0)"
    if "truthy (g_imageUrl s)"
    using that by (simp add: startGame_def Let_def)
  have reset: "g_players (r_state (onMessage c1 e (Json ResetGame) s)) = []
      \<and> g_status (r_state (onMessage c1 e (Json ResetGame) s)) = Waiting"
    by (simp add: resetGame_def Let_def)
  from same acts turns start reset show ?thesis by blast
qed

theorem message_effect_independent_of_sender_witness:
  "\<not> c_isPlayer observer \<and> c_playerId observer \<noteq> ''alice''
   \<and> map_of (g_players (r_state (run initial_gameState example_round))) ''alice''
       = Some alice_playing
   \<and> p_status alice_playing = Playing \<and> (2::nat) < 9
   \<and> arr_get (p_puzzle alice_playing) 2 = Some (Num 0)
   \<and> truthy (g_imageUrl (r_state (run initial_gameState example_round)))
   \<and> (\<exists>p'. map_of (g_players (r_state (onMessage observer later_env
                (Json (Rotate ''alice'' (Index 2)))
                (r_state (run initial_gameState example_round))))) ''alice'' = Some p'
          \<and> arr_get (p_puzzle p') 2 = Some (Num 1)
          \<and> p_puzzle p' \<noteq> p_puzzle alice_playing
          \<and> p_steps p' = 1)
   \<and> g_status (r_state (onMessage observer later_env (Json StartGame)
        (r_state (run initial_gameState example_round)))) = GamePlaying
   \<and> g_players (r_state (onMessage observer later_env (Json ResetGame)
        (r_state (run initial_gameState example_round)))) = []"
proof -
  have cell: "arr_get (p_puzzle alice_playing) 2 = Some (Num 0)"
    by (simp add: alice_playing_def example_puzzle arr_get_def)
  have url: "truthy (g_imageUrl (r_state (run initial_gameState example_round)))"
    by (simp add: example_round_state truthy_def)
  have who: "\<not> c_isPlayer observer \<and> c_playerId observer \<noteq> ''alice''"
    by (simp add: observer_def)
  have zero: "p_steps alice_playing = 0"
    by (simp add: alice_playing_def)
  note applied = message_effect_independent_of_sender
    [where ?c1.0 = observer and e = later_env and m = "Json StartGame"
       and s = "r_state (run initial_gameState example_round)" and ?c2.0 = alice
       and k = "''alice''" and p = alice_playing and t = "Index 2" and i = 2 and n = 0]
  show ?thesis
    using applied cell url who zero example_alice alice_playing_ok
    by (auto simp del: onMessage.simps)
qed

end
